theory Spec2Isabelle
  imports Main "HOL-Library.AList" "HOL-Library.Sublist"
begin

section \<open>process_downloads.py: matching and processing download triplets\<close>

text \<open>
  The script scans one directory for metadata sidecars (\<open>*_tags.json\<close>), pairs each with
  an audio file and an optional cover, converts the audio to MP3 with ffmpeg, writes ID3
  tags and cover art with mutagen, and removes the staging files.

  The model follows the source function by function. Paths are file names inside the one
  target directory (every path the script builds is \<open>directory / name\<close>). The file system
  is an association list from names to files, in the order the directory enumerates them.
  ffmpeg, mutagen, the JSON decoder and the operating system are collaborators: what they
  decide (decoding, transcoding, permissions) is a field of the record \<open>env\<close>, never fixed
  by the model. Every function returns what the source returns together with the world it
  leaves; the text the script prints is not modelled.
\<close>

subsection \<open>Python values and exceptions\<close>

text \<open>
  What \<open>json.load\<close> returns. A number is an integer here; a float behaves the same way in
  every test the script makes (zero is false, indexing it raises \<open>TypeError\<close>). The list of
  an object holds each key once, as the decoded dict does.
\<close>

datatype json =
    JNull
  | JBool bool
  | JNum int
  | JStr string
  | JArr "json list"
  | JObj "(string \<times> json) list"

text \<open>
  Exceptions the calls of the script can raise. \<open>EmptyTagsFile\<close> is not an exception: it
  stands for the early \<open>return False\<close> of line 178.
\<close>

datatype pyerr =
    FileNotFoundError
  | PermissionError
  | JSONDecodeError
  | IndexError
  | KeyError
  | TypeError
  | AttributeError
  | HeaderNotFoundError
  | ValueError
  | OSError
  | UnicodeDecodeError
  | EmptyTagsFile

text \<open>Truth value of a decoded JSON value, as \<open>if x\<close> and \<open>not x\<close> test it.\<close>

fun truthy :: "json \<Rightarrow> bool" where
  "truthy JNull = False"
| "truthy (JBool b) = b"
| "truthy (JNum n) = (n \<noteq> 0)"
| "truthy (JStr s) = (s \<noteq> [])"
| "truthy (JArr xs) = (xs \<noteq> [])"
| "truthy (JObj kvs) = (kvs \<noteq> [])"

text \<open>
  \<open>x[0]\<close>: the first element of a list, the first character of a string, \<open>KeyError\<close> on a
  decoded object (its keys are strings, never the integer 0), \<open>TypeError\<close> otherwise.
\<close>

fun subscript0 :: "json \<Rightarrow> pyerr + json" where
  "subscript0 (JArr []) = Inl IndexError"
| "subscript0 (JArr (x # xs)) = Inr x"
| "subscript0 (JStr []) = Inl IndexError"
| "subscript0 (JStr (c # cs)) = Inr (JStr [c])"
| "subscript0 (JObj kvs) = Inl KeyError"
| "subscript0 JNull = Inl TypeError"
| "subscript0 (JBool b) = Inl TypeError"
| "subscript0 (JNum n) = Inl TypeError"

text \<open>\<open>d.get(key)\<close>: the value, \<open>None\<close> for an absent key, \<open>AttributeError\<close> when \<open>d\<close> is no dict.\<close>

fun py_get :: "json \<Rightarrow> string \<Rightarrow> pyerr + json" where
  "py_get (JObj kvs) k = Inr (case map_of kvs k of None \<Rightarrow> JNull | Some v \<Rightarrow> v)"
| "py_get JNull k = Inl AttributeError"
| "py_get (JBool b) k = Inl AttributeError"
| "py_get (JNum n) k = Inl AttributeError"
| "py_get (JStr s) k = Inl AttributeError"
| "py_get (JArr xs) k = Inl AttributeError"

subsection \<open>Strings and pathlib\<close>

type_synonym path = string

text \<open>\<open>s.rfind(c)\<close>: the index of the last occurrence, \<open>None\<close> for Python's -1.\<close>

fun rfind :: "char \<Rightarrow> string \<Rightarrow> nat option" where
  "rfind c [] = None"
| "rfind c (x # xs) =
     (case rfind c xs of
        Some i \<Rightarrow> Some (Suc i)
      | None \<Rightarrow> if x = c then Some 0 else None)"

text \<open>
  \<open>PurePath.suffix\<close> and \<open>PurePath.stem\<close>: the name is split at its last dot when that dot
  is neither the first nor the last character (\<open>0 < i < len(name) - 1\<close>).
\<close>

definition path_suffix :: "path \<Rightarrow> string" where
  "path_suffix name =
     (case rfind (CHR ''.'') name of
        None \<Rightarrow> []
      | Some i \<Rightarrow> if 0 < i \<and> i + 1 < length name then drop i name else [])"

definition path_stem :: "path \<Rightarrow> string" where
  "path_stem name =
     (case rfind (CHR ''.'') name of
        None \<Rightarrow> name
      | Some i \<Rightarrow> if 0 < i \<and> i + 1 < length name then take i name else name)"

text \<open>\<open>PurePath.with_suffix(suffix)\<close> for a non-empty name and a suffix that starts with a dot.\<close>

definition with_suffix :: "path \<Rightarrow> string \<Rightarrow> path" where
  "with_suffix name suffix' =
     (let old_suffix = path_suffix name in
      if old_suffix = [] then name @ suffix'
      else take (length name - length old_suffix) name @ suffix')"

text \<open>\<open>str.lower()\<close> on the ASCII letters.\<close>

definition lower_char :: "char \<Rightarrow> char" where
  "lower_char c =
     (let n = (of_char c :: nat) in if 65 \<le> n \<and> n \<le> 90 then char_of (n + 32) else c)"

definition lower :: "string \<Rightarrow> string" where
  "lower s = map lower_char s"

text \<open>
  \<open>s.replace(old, new)\<close> for a non-empty \<open>old\<close>: every occurrence, scanning from the left,
  occurrences not overlapping, the replaced text not scanned again.
\<close>

function str_replace :: "string \<Rightarrow> string \<Rightarrow> string \<Rightarrow> string" where
  "str_replace old new [] = []"
| "str_replace old new (c # cs) =
     (if old \<noteq> [] \<and> prefix old (c # cs)
      then new @ str_replace old new (drop (length old) (c # cs))
      else c # str_replace old new cs)"
  by pat_completeness auto
termination
  by (relation "measure (\<lambda>(old, new, s). length s)") auto

subsection \<open>Files, the world and the collaborators\<close>

text \<open>
  An ID3 frame as the script builds it: the five text frames and the comment frame carry
  the encoding and the value taken from the metadata record, the picture frame carries the
  encoding, MIME type, picture type, description and the bytes of the cover.
\<close>

datatype frame =
    TIT2 nat "json list"
  | TPE1 nat "json list"
  | TALB nat "json list"
  | TDRC nat "json list"
  | TCON nat "json list"
  | COMM nat string string "json list"
  | APIC nat string nat string string

text \<open>
  Modelled from the spec: the tag writer collaborator (mutagen), which is not part of the
  repository. Its interface is "load tags for file / ensure tag container exists / add
  text frame / add comment frame / add embedded image frame / persist changes", where
  adding a frame leaves one frame per field and overwrites a cover embedded before.
  mutagen keeps the frames of a tag in a dict keyed by the frame's \<open>HashKey\<close>: the frame id
  for a text frame, id, description and language for a comment, id and description for a
  picture. \<open>tags.add(frame)\<close> stores the frame under its key, replacing a frame that has
  the same key.
\<close>

type_synonym id3_tags = "(string \<times> frame) list"

fun hash_key :: "frame \<Rightarrow> string" where
  "hash_key (TIT2 e t) = ''TIT2''"
| "hash_key (TPE1 e t) = ''TPE1''"
| "hash_key (TALB e t) = ''TALB''"
| "hash_key (TDRC e t) = ''TDRC''"
| "hash_key (TCON e t) = ''TCON''"
| "hash_key (COMM e l d t) = ''COMM:'' @ d @ '':'' @ l"
| "hash_key (APIC e m ty d b) = ''APIC:'' @ d"

definition tags_add :: "frame \<Rightarrow> id3_tags \<Rightarrow> id3_tags" where
  "tags_add fr t = AList.update (hash_key fr) fr t"

text \<open>
  A file: its bytes apart from an ID3 container, and the ID3 container when the file has one
  (\<open>audio.tags\<close> is \<open>None\<close> for a file without one).
\<close>

record fobj =
  payload :: string
  id3 :: "id3_tags option"

text \<open>What the script asks of the outside: a process started, a tag saved, a file unlinked.\<close>

datatype event =
    Spawn "string list"
  | Save path
  | Unlink path

record world =
  files :: "(path \<times> fobj) list"
  trace :: "event list"

text \<open>
  Starting the encoder: the binary runs, it is not found (\<open>FileNotFoundError\<close>), or the
  system refuses to start it with another \<open>OSError\<close> (\<open>PermissionError\<close> for a file that
  is not executable).
\<close>

datatype launch = Launched | NoSuchBinary | LaunchRefused

text \<open>
  The collaborators. \<open>json_load\<close> is \<open>json.load\<close> on a file (\<open>None\<close>: the bytes are not
  UTF-8 or not JSON). \<open>stat_error\<close> says for which paths the system call behind
  \<open>Path.exists()\<close> fails with an error other than "no such file" (a name that is too long,
  for one). \<open>ffmpeg_launch\<close> says what starting the encoder gives, \<open>transcode\<close> what the
  encoder produces from an input file (\<open>None\<close>: a non-zero exit status), \<open>leftover\<close> what a
  run that fails leaves at the output path (\<open>None\<close>: nothing), \<open>stderr_decodes\<close> whether the
  diagnostic output of a failed run is valid UTF-8. \<open>mpeg_ok\<close> says whether mutagen's
  \<open>MP3(...)\<close> can load a file, \<open>frame_invalid\<close> whether it refuses to build a frame from
  the given value. The three \<open>denied\<close> fields are the operating system refusing to read,
  write or unlink a path.
\<close>

record env =
  json_load :: "fobj \<Rightarrow> json option"
  stat_error :: "path \<Rightarrow> bool"
  ffmpeg_launch :: launch
  transcode :: "fobj \<Rightarrow> fobj option"
  leftover :: "fobj \<Rightarrow> fobj option"
  stderr_decodes :: "string list \<Rightarrow> bool"
  mpeg_ok :: "fobj \<Rightarrow> bool"
  frame_invalid :: "frame \<Rightarrow> bool"
  read_denied :: "path \<Rightarrow> bool"
  write_denied :: "path \<Rightarrow> bool"
  unlink_denied :: "path \<Rightarrow> bool"

text \<open>Whether a path is in the directory.\<close>

definition on_disk :: "world \<Rightarrow> path \<Rightarrow> bool" where
  "on_disk w p = (map_of (files w) p \<noteq> None)"

text \<open>
  \<open>Path.exists()\<close>: \<open>True\<close> or \<open>False\<close> for a path that is or is not there; pathlib raises
  every other error of the system call again.
\<close>

definition path_exists :: "env \<Rightarrow> world \<Rightarrow> path \<Rightarrow> pyerr + bool" where
  "path_exists env w p = (if stat_error env p then Inl OSError else Inr (on_disk w p))"

definition log_event :: "event \<Rightarrow> world \<Rightarrow> world" where
  "log_event e w = w\<lparr>trace := trace w @ [e]\<rparr>"

subsection \<open>find_triplets\<close>

record triplet =
  audio :: path
  tags :: path
  cover :: "path option"

text \<open>\<open>directory.glob("*_tags.json")\<close>: the names that end in \<open>_tags.json\<close>, in directory order.\<close>

definition glob_tags :: "world \<Rightarrow> path list" where
  "glob_tags w = filter (suffix ''_tags.json'') (map fst (files w))"

text \<open>
  The two \<open>for ext in [...]\<close> loops (lines 23-27 and 34-38): the first candidate that exists,
  with \<open>break\<close>. The second component lists the candidates on which \<open>exists()\<close> was called.
  The loops stand in no \<open>try\<close>: an exception of \<open>exists()\<close> leaves the loop and the function.
\<close>

fun first_match :: "env \<Rightarrow> world \<Rightarrow> path list \<Rightarrow> pyerr + (path option \<times> path list)" where
  "first_match env w [] = Inr (None, [])"
| "first_match env w (candidate # rest) =
     (case path_exists env w candidate of
        Inl e \<Rightarrow> Inl e
      | Inr there \<Rightarrow>
          if there then Inr (Some candidate, [candidate])
          else (case first_match env w rest of
                  Inl e \<Rightarrow> Inl e
                | Inr (found, probed) \<Rightarrow> Inr (found, candidate # probed)))"

definition audio_exts :: "string list" where
  "audio_exts = [''.m4a'', ''.mp4'', ''.mp3'', ''.flac'']"

definition cover_exts :: "string list" where
  "cover_exts = [''.jpeg'', ''.jpg'', ''.png'', ''.webp'']"

text \<open>Line 20: \<open>json_file.stem.replace("_tags", "")\<close>.\<close>

definition base_name_of :: "path \<Rightarrow> string" where
  "base_name_of json_file = str_replace ''_tags'' [] (path_stem json_file)"

definition audio_candidates :: "string \<Rightarrow> path list" where
  "audio_candidates base_name = map (\<lambda>ext. base_name @ ext) audio_exts"

definition cover_candidates :: "string \<Rightarrow> path list" where
  "cover_candidates base_name = map (\<lambda>ext. base_name @ ''_cover'' @ ext) cover_exts"

text \<open>
  The body of the loop over the sidecars (lines 20-46); \<open>Inr None\<close> is the \<open>continue\<close> of
  line 31, \<open>Inl\<close> an exception that leaves the loop.
\<close>

definition match_one :: "env \<Rightarrow> world \<Rightarrow> path \<Rightarrow> pyerr + triplet option" where
  "match_one env w json_file =
     (let base_name = base_name_of json_file in
      case first_match env w (audio_candidates base_name) of
        Inl e \<Rightarrow> Inl e
      | Inr (None, probed) \<Rightarrow> Inr None
      | Inr (Some audio_file, probed) \<Rightarrow>
          (case first_match env w (cover_candidates base_name) of
             Inl e \<Rightarrow> Inl e
           | Inr (cover_file, probed') \<Rightarrow>
               Inr (Some \<lparr>audio = audio_file, tags = json_file, cover = cover_file\<rparr>)))"

text \<open>Lines 19-53: the loop over the sidecars, appending a triplet for each that has an audio.\<close>

fun match_all :: "env \<Rightarrow> world \<Rightarrow> path list \<Rightarrow> pyerr + triplet list" where
  "match_all env w [] = Inr []"
| "match_all env w (json_file # rest) =
     (case match_one env w json_file of
        Inl e \<Rightarrow> Inl e
      | Inr r \<Rightarrow>
          (case match_all env w rest of
             Inl e \<Rightarrow> Inl e
           | Inr triplets \<Rightarrow> Inr (case r of None \<Rightarrow> triplets | Some t \<Rightarrow> t # triplets)))"

definition find_triplets :: "env \<Rightarrow> world \<Rightarrow> pyerr + triplet list" where
  "find_triplets env w = match_all env w (glob_tags w)"

subsection \<open>convert_to_mp3\<close>

text \<open>
  Modelled from the spec: the external encoder collaborator (ffmpeg started by
  \<open>subprocess.run(cmd, check=True)\<close>), which is not part of the repository. It is "invoked
  with input path, target codec identifier, a quality parameter, overwrite-existing-output
  enabled" and "must report failure via non-zero exit status with captured diagnostic
  output". \<open>subprocess.run\<close> raises \<open>FileNotFoundError\<close> when there is no such binary,
  another \<open>OSError\<close> when the system refuses to start it, and \<open>CalledProcessError\<close> for a
  non-zero exit status. ffmpeg reads the file named after \<open>-i\<close> and writes the file named
  last; it replaces an existing output only under \<open>-y\<close>. A run that fails may leave a
  partial output.
\<close>

datatype run_result = Completed | CalledProcessError | BinaryNotFound | LaunchError

definition subprocess_run :: "env \<Rightarrow> string list \<Rightarrow> world \<Rightarrow> run_result \<times> world" where
  "subprocess_run env cmd w0 =
     (let w = log_event (Spawn cmd) w0 in
      case ffmpeg_launch env of
        NoSuchBinary \<Rightarrow> (BinaryNotFound, w)
      | LaunchRefused \<Rightarrow> (LaunchError, w)
      | Launched \<Rightarrow>
          (case cmd of
             [prog, i_flag, inp, c_flag, codec, q_flag, quality, y_flag, out] \<Rightarrow>
               (case map_of (files w) inp of
                  None \<Rightarrow> (CalledProcessError, w)
                | Some f \<Rightarrow>
                    if write_denied env out \<or> (on_disk w out \<and> y_flag \<noteq> ''-y'')
                    then (CalledProcessError, w)
                    else
                      (case transcode env f of
                         Some g \<Rightarrow> (Completed, w\<lparr>files := AList.update out g (files w)\<rparr>)
                       | None \<Rightarrow>
                           (CalledProcessError,
                            case leftover env f of
                              None \<Rightarrow> w
                            | Some g \<Rightarrow> w\<lparr>files := AList.update out g (files w)\<rparr>)))
           | _ \<Rightarrow> (CalledProcessError, w)))"

definition ffmpeg_cmd :: "path \<Rightarrow> path \<Rightarrow> string list" where
  "ffmpeg_cmd input_file output_file =
     [''ffmpeg'', ''-i'', input_file, ''-codec:a'', ''libmp3lame'', ''-q:a'', ''0'', ''-y'',
      output_file]"

text \<open>
  Lines 56-88. The two \<open>except\<close> clauses catch \<open>CalledProcessError\<close> and
  \<open>FileNotFoundError\<close> and return \<open>False\<close>. Every other exception leaves the function:
  another \<open>OSError\<close> of \<open>subprocess.run\<close>, and the \<open>UnicodeDecodeError\<close> that
  \<open>e.stderr.decode()\<close> of line 84 raises inside the first clause when the diagnostic output
  is not UTF-8.
\<close>

definition convert_to_mp3 :: "env \<Rightarrow> path \<Rightarrow> path \<Rightarrow> world \<Rightarrow> (pyerr + bool) \<times> world" where
  "convert_to_mp3 env input_file output_file w =
     (case subprocess_run env (ffmpeg_cmd input_file output_file) w of
        (Completed, w') \<Rightarrow> (Inr True, w')
      | (CalledProcessError, w') \<Rightarrow>
          (if stderr_decodes env (ffmpeg_cmd input_file output_file) then Inr False
           else Inl UnicodeDecodeError, w')
      | (BinaryNotFound, w') \<Rightarrow> (Inr False, w')
      | (LaunchError, w') \<Rightarrow> (Inl PermissionError, w'))"

subsection \<open>apply_tags and embed_cover_art\<close>

text \<open>\<open>open(path)\<close> for reading.\<close>

definition open_read :: "env \<Rightarrow> path \<Rightarrow> world \<Rightarrow> pyerr + fobj" where
  "open_read env p w =
     (case map_of (files w) p of
        None \<Rightarrow> Inl FileNotFoundError
      | Some f \<Rightarrow> if read_denied env p then Inl PermissionError else Inr f)"

text \<open>
  Modelled from the spec: "load tags for file" of the tag writer collaborator.
  \<open>MP3(audio_file)\<close> opens the file and parses it; it raises when the file cannot be read
  or is no MPEG audio.
\<close>

definition mp3_load :: "env \<Rightarrow> path \<Rightarrow> world \<Rightarrow> pyerr + fobj" where
  "mp3_load env p w =
     (case open_read env p w of
        Inl e \<Rightarrow> Inl e
      | Inr f \<Rightarrow> if mpeg_ok env f then Inr f else Inl HeaderNotFoundError)"

text \<open>Lines 96-97 and 133-134: \<open>if audio.tags is None: audio.add_tags()\<close>.\<close>

definition ensure_tags :: "fobj \<Rightarrow> id3_tags" where
  "ensure_tags f = (case id3 f of None \<Rightarrow> [] | Some t \<Rightarrow> t)"

text \<open>
  Modelled from the spec: "persist changes" of the tag writer collaborator. \<open>audio.save()\<close>
  writes the tag into the file the object was loaded from and leaves the audio as it is;
  it raises when the file cannot be written, and then the file is unchanged.
\<close>

definition mp3_save :: "env \<Rightarrow> path \<Rightarrow> fobj \<Rightarrow> id3_tags \<Rightarrow> world \<Rightarrow> pyerr option \<times> world" where
  "mp3_save env p f t w0 =
     (let w = log_event (Save p) w0 in
      if write_denied env p then (Some PermissionError, w)
      else (None, w\<lparr>files := AList.update p (f\<lparr>id3 := Some t\<rparr>) (files w)\<rparr>))"

text \<open>
  One \<open>if tags_data.get(key): audio.tags.add(Frame(..., text=[tags_data[key]]))\<close> of
  lines 99-117.
\<close>

definition field_step ::
  "env \<Rightarrow> json \<Rightarrow> string \<Rightarrow> (json list \<Rightarrow> frame) \<Rightarrow> id3_tags \<Rightarrow> pyerr + id3_tags" where
  "field_step env tags_data key mk t =
     (case py_get tags_data key of
        Inl e \<Rightarrow> Inl e
      | Inr v \<Rightarrow>
          if truthy v
          then (if frame_invalid env (mk [v]) then Inl ValueError else Inr (tags_add (mk [v]) t))
          else Inr t)"

text \<open>The six fields in the order of the source, each with the frame it builds.\<close>

definition text_fields :: "(string \<times> (json list \<Rightarrow> frame)) list" where
  "text_fields =
     [(''title'', TIT2 3), (''artist'', TPE1 3), (''album'', TALB 3), (''year'', TDRC 3),
      (''genre'', TCON 3), (''comment'', COMM 3 ''eng'' [])]"

fun add_fields ::
  "env \<Rightarrow> json \<Rightarrow> (string \<times> (json list \<Rightarrow> frame)) list \<Rightarrow> id3_tags \<Rightarrow> pyerr + id3_tags" where
  "add_fields env tags_data [] t = Inr t"
| "add_fields env tags_data ((key, mk) # rest) t =
     (case field_step env tags_data key mk t of
        Inl e \<Rightarrow> Inl e
      | Inr t' \<Rightarrow> add_fields env tags_data rest t')"

definition apply_tags :: "env \<Rightarrow> path \<Rightarrow> json \<Rightarrow> world \<Rightarrow> bool \<times> world" where
  "apply_tags env audio_file tags_data w =
     (case mp3_load env audio_file w of
        Inl e \<Rightarrow> (False, w)
      | Inr audio_obj \<Rightarrow>
          (case add_fields env tags_data text_fields (ensure_tags audio_obj) of
             Inl e \<Rightarrow> (False, w)
           | Inr t \<Rightarrow>
               (case mp3_save env audio_file audio_obj t w of
                  (Some e, w') \<Rightarrow> (False, w')
                | (None, w') \<Rightarrow> (True, w'))))"

text \<open>Lines 139-144: the MIME type from the cover's suffix.\<close>

definition mime_type_of :: "path \<Rightarrow> string" where
  "mime_type_of cover_file =
     (let ext = lower (path_suffix cover_file) in
      if ext = ''.png'' then ''image/png''
      else if ext = ''.webp'' then ''image/webp''
      else ''image/jpeg'')"

definition embed_cover_art :: "env \<Rightarrow> path \<Rightarrow> path \<Rightarrow> world \<Rightarrow> bool \<times> world" where
  "embed_cover_art env audio_file cover_file w =
     (case mp3_load env audio_file w of
        Inl e \<Rightarrow> (False, w)
      | Inr audio_obj \<Rightarrow>
          (case open_read env cover_file w of
             Inl e \<Rightarrow> (False, w)
           | Inr c \<Rightarrow>
               (let fr = APIC 3 (mime_type_of cover_file) 3 ''Cover'' (payload c) in
                if frame_invalid env fr then (False, w)
                else
                  (case mp3_save env audio_file audio_obj (tags_add fr (ensure_tags audio_obj)) w of
                     (Some e, w') \<Rightarrow> (False, w')
                   | (None, w') \<Rightarrow> (True, w')))))"

subsection \<open>process_triplet\<close>

text \<open>Lines 173-182: the metadata record, or the reason there is none.\<close>

definition read_tags :: "env \<Rightarrow> path \<Rightarrow> world \<Rightarrow> pyerr + json" where
  "read_tags env tags_file w =
     (case open_read env tags_file w of
        Inl e \<Rightarrow> Inl e
      | Inr f \<Rightarrow>
          (case json_load env f of
             None \<Rightarrow> Inl JSONDecodeError
           | Some tags_list \<Rightarrow>
               if \<not> truthy tags_list then Inl EmptyTagsFile else subscript0 tags_list))"

text \<open>
  Lines 184-191: the path of the MP3 to tag, \<open>Inr None\<close> when the conversion returned
  \<open>False\<close>, \<open>Inl\<close> when an exception left \<open>convert_to_mp3\<close>. A file whose suffix is
  \<open>.mp3\<close> in any letter case is taken as it is.
\<close>

definition normalize :: "env \<Rightarrow> path \<Rightarrow> world \<Rightarrow> (pyerr + path option) \<times> world" where
  "normalize env audio_file w =
     (if lower (path_suffix audio_file) = ''.mp3'' then (Inr (Some audio_file), w)
      else
        (let mp3_file = with_suffix audio_file ''.mp3'' in
         case convert_to_mp3 env audio_file mp3_file w of
           (Inl e, w') \<Rightarrow> (Inl e, w')
         | (Inr ok, w') \<Rightarrow> (Inr (if ok then Some mp3_file else None), w')))"

text \<open>\<open>Path.unlink()\<close>: raises for a missing path and when the system refuses.\<close>

definition unlink :: "env \<Rightarrow> path \<Rightarrow> world \<Rightarrow> pyerr option \<times> world" where
  "unlink env p w0 =
     (let w = log_event (Unlink p) w0 in
      if \<not> on_disk w p then (Some FileNotFoundError, w)
      else if unlink_denied env p then (Some PermissionError, w)
      else (None, w\<lparr>files := AList.delete p (files w)\<rparr>))"

text \<open>
  Lines 201-214: the three deletions inside one \<open>try\<close>. The first component is the exception
  the \<open>except\<close> clause caught and reported as a warning, \<open>None\<close> when the block ran to its end.
  \<open>audio_file.exists()\<close> is called only when the two paths differ.
\<close>

definition cleanup :: "env \<Rightarrow> triplet \<Rightarrow> path \<Rightarrow> world \<Rightarrow> pyerr option \<times> world" where
  "cleanup env triplet mp3_file w =
     (case unlink env (tags triplet) w of
        (Some e, w1) \<Rightarrow> (Some e, w1)
      | (None, w1) \<Rightarrow>
          (case (case cover triplet of
                   None \<Rightarrow> (None, w1)
                 | Some cover_file \<Rightarrow> unlink env cover_file w1) of
             (Some e, w2) \<Rightarrow> (Some e, w2)
           | (None, w2) \<Rightarrow>
               if audio triplet \<noteq> mp3_file
               then (case path_exists env w2 (audio triplet) of
                       Inl e \<Rightarrow> (Some e, w2)
                     | Inr there \<Rightarrow>
                         if there then unlink env (audio triplet) w2 else (None, w2))
               else (None, w2)))"

text \<open>
  Lines 165-217: \<open>Inr\<close> the value returned, \<open>Inl\<close> an exception that leaves the function
  (only the call of \<open>convert_to_mp3\<close> in line 190 stands outside every \<open>try\<close>). The result
  of \<open>embed_cover_art\<close> and the exception caught in the cleanup only choose a message to
  print; the function returns \<open>True\<close> after both.
\<close>

definition process_triplet :: "env \<Rightarrow> triplet \<Rightarrow> world \<Rightarrow> (pyerr + bool) \<times> world" where
  "process_triplet env triplet w =
     (case read_tags env (tags triplet) w of
        Inl e \<Rightarrow> (Inr False, w)
      | Inr tags_data \<Rightarrow>
          (case normalize env (audio triplet) w of
             (Inl e, w1) \<Rightarrow> (Inl e, w1)
           | (Inr None, w1) \<Rightarrow> (Inr False, w1)
           | (Inr (Some mp3_file), w1) \<Rightarrow>
               (case apply_tags env mp3_file tags_data w1 of
                  (tagged, w2) \<Rightarrow>
                    if \<not> tagged then (Inr False, w2)
                    else
                      (let w3 = (case cover triplet of
                                   None \<Rightarrow> w2
                                 | Some cover_file \<Rightarrow>
                                     snd (embed_cover_art env mp3_file cover_file w2))
                       in (Inr True, snd (cleanup env triplet mp3_file w3))))))"

subsection \<open>main\<close>



text \<open>
  A run of the script: the exit status of the process, the triplets the matcher returned,
  the tally of the last line printed (successes, triplets) when that line is reached, and
  the world the run leaves. \<open>sys.exit(1)\<close> gives the status 1, and so does an exception
  that nothing catches; returning from \<open>main\<close> gives 0.
\<close>

record run =
  exit_status :: int
  matched :: "triplet list"
  tally :: "(nat \<times> nat) option"
  final :: world


subsection \<open>Reading the trace\<close>

text \<open>The paths on which \<open>unlink\<close> was called and the command lines started, in order.\<close>

definition unlink_attempts :: "event list \<Rightarrow> path list" where
  "unlink_attempts es = concat (map (\<lambda>e. case e of Unlink p \<Rightarrow> [p] | _ \<Rightarrow> []) es)"

definition spawned :: "event list \<Rightarrow> string list list" where
  "spawned es = concat (map (\<lambda>e. case e of Spawn cmd \<Rightarrow> [cmd] | _ \<Rightarrow> []) es)"

text \<open>
  From \<open>w\<close> to \<open>w'\<close> no \<open>unlink\<close> was called and no path was lost (files may have been added
  or rewritten).
\<close>

definition grows :: "world \<Rightarrow> world \<Rightarrow> bool" where
  "grows w w' \<longleftrightarrow>
     unlink_attempts (trace w') = unlink_attempts (trace w) \<and>
     (\<forall>p. on_disk w p \<longrightarrow> on_disk w' p)"

subsection \<open>The tag set a metadata record asks for\<close>


subsection \<open>Example inputs\<close>

text \<open>
  Collaborators that always succeed: one sidecar content decodes to a record with a title
  and an artist, the encoder prefixes the payload, nothing is refused.
\<close>

definition demo_env :: env where
  "demo_env =
     \<lparr>json_load =
        (\<lambda>f. if payload f = ''J''
             then Some (JArr [JObj [(''title'', JStr ''A''), (''artist'', JStr ''B'')]])
             else None),
      stat_error = (\<lambda>p. False),
      ffmpeg_launch = Launched,
      transcode = (\<lambda>f. Some \<lparr>payload = ''mp3:'' @ payload f, id3 = None\<rparr>),
      leftover = (\<lambda>f. None),
      stderr_decodes = (\<lambda>cmd. True),
      mpeg_ok = (\<lambda>f. True),
      frame_invalid = (\<lambda>fr. False),
      read_denied = (\<lambda>p. False),
      write_denied = (\<lambda>p. False),
      unlink_denied = (\<lambda>p. False)\<rparr>"

text \<open>A sidecar beside an audio file that is already an MP3; the unit names a cover that is gone.\<close>

definition demo_inplace :: world where
  "demo_inplace =
     \<lparr>files = [(''song_tags.json'', \<lparr>payload = ''J'', id3 = None\<rparr>),
               (''song.mp3'', \<lparr>payload = ''sound'', id3 = None\<rparr>)],
      trace = []\<rparr>"

definition demo_unit :: triplet where
  "demo_unit = \<lparr>audio = ''song.mp3'', tags = ''song_tags.json'', cover = Some ''song_cover.png''\<rparr>"

text \<open>The directory of the end-to-end scenario: a sidecar, a FLAC file and a PNG cover.\<close>

definition demo_flac :: world where
  "demo_flac =
     \<lparr>files = [(''song_tags.json'', \<lparr>payload = ''J'', id3 = None\<rparr>),
               (''song.flac'', \<lparr>payload = ''flac'', id3 = None\<rparr>),
               (''song_cover.png'', \<lparr>payload = ''png'', id3 = None\<rparr>)],
      trace = []\<rparr>"

definition demo_flac_unit :: triplet where
  "demo_flac_unit =
     \<lparr>audio = ''song.flac'', tags = ''song_tags.json'', cover = Some ''song_cover.png''\<rparr>"

text \<open>
  A directory where the base name \<open>song\<close> has an M4A file and an older MP3 file, and a
  directory with two sidecars whose names differ by a second \<open>_tags\<close>.
\<close>

definition demo_both :: world where
  "demo_both =
     \<lparr>files = [(''song.mp3'', \<lparr>payload = ''old'', id3 = None\<rparr>),
               (''song_tags.json'', \<lparr>payload = ''J'', id3 = None\<rparr>),
               (''song.m4a'', \<lparr>payload = ''m4a'', id3 = None\<rparr>)],
      trace = []\<rparr>"

definition demo_twice :: world where
  "demo_twice =
     \<lparr>files = [(''a_tags.json'', \<lparr>payload = ''J'', id3 = None\<rparr>),
               (''a_tags_tags.json'', \<lparr>payload = ''J'', id3 = None\<rparr>),
               (''a.mp3'', \<lparr>payload = ''sound'', id3 = None\<rparr>)],
      trace = []\<rparr>"



text \<open>A directory whose sidecar is named \<open>_tags.json\<close>, so that the base name is empty.\<close>

definition demo_nameless :: world where
  "demo_nameless =
     \<lparr>files = [(''.mp3'', \<lparr>payload = ''old'', id3 = None\<rparr>),
               (''_tags.json'', \<lparr>payload = ''J'', id3 = None\<rparr>),
               (''.m4a'', \<lparr>payload = ''m4a'', id3 = None\<rparr>)],
      trace = []\<rparr>"

text \<open>
  A directory whose sidecar is named \<open>_tags.json\<close> and whose audio file is named \<open>.mp3\<close>.
\<close>

definition demo_dot_mp3 :: world where
  "demo_dot_mp3 =
     \<lparr>files = [(''_tags.json'', \<lparr>payload = ''J'', id3 = None\<rparr>),
               (''.mp3'', \<lparr>payload = ''sound'', id3 = None\<rparr>),
               (''_cover.png'', \<lparr>payload = ''png'', id3 = None\<rparr>)],
      trace = []\<rparr>"

section \<open>Properties\<close>

lemmas model_defs =
  process_triplet_def read_tags_def normalize_def apply_tags_def embed_cover_art_def
  cleanup_def unlink_def mp3_load_def mp3_save_def open_read_def convert_to_mp3_def
  subprocess_run_def ffmpeg_cmd_def field_step_def text_fields_def ensure_tags_def
  tags_add_def mime_type_of_def path_exists_def on_disk_def log_event_def path_suffix_def
  path_stem_def with_suffix_def lower_def lower_char_def

subsection \<open>The permission to unlink is used by the cleanup only\<close>

lemma add_fields_unlink_denied:
  "add_fields (env\<lparr>unlink_denied := u\<rparr>) d fs t = add_fields env d fs t"
  by (induction fs arbitrary: t) (auto simp: field_step_def split: sum.splits)

lemma open_read_unlink_denied:
  "open_read (env\<lparr>unlink_denied := u\<rparr>) p w = open_read env p w"
  by (simp add: open_read_def split: option.splits)

lemma mp3_load_unlink_denied:
  "mp3_load (env\<lparr>unlink_denied := u\<rparr>) p w = mp3_load env p w"
  by (simp add: mp3_load_def open_read_unlink_denied split: sum.splits)

lemma mp3_save_unlink_denied:
  "mp3_save (env\<lparr>unlink_denied := u\<rparr>) p f t w = mp3_save env p f t w"
  by (simp add: mp3_save_def)

lemma apply_tags_unlink_denied:
  "apply_tags (env\<lparr>unlink_denied := u\<rparr>) p d w = apply_tags env p d w"
  by (simp add: apply_tags_def mp3_load_unlink_denied mp3_save_unlink_denied
      add_fields_unlink_denied cong: sum.case_cong)

lemma subprocess_run_unlink_denied:
  "subprocess_run (env\<lparr>unlink_denied := u\<rparr>) cmd w = subprocess_run env cmd w"
  by (auto simp: subprocess_run_def Let_def split: list.splits option.splits launch.splits)

lemma convert_to_mp3_unlink_denied:
  "convert_to_mp3 (env\<lparr>unlink_denied := u\<rparr>) a b w = convert_to_mp3 env a b w"
  by (simp add: convert_to_mp3_def subprocess_run_unlink_denied
      split: prod.splits run_result.splits)

lemma normalize_unlink_denied:
  "normalize (env\<lparr>unlink_denied := u\<rparr>) a w = normalize env a w"
  by (simp add: normalize_def convert_to_mp3_unlink_denied)

lemma read_tags_unlink_denied:
  "read_tags (env\<lparr>unlink_denied := u\<rparr>) p w = read_tags env p w"
  by (simp add: read_tags_def open_read_unlink_denied split: sum.splits option.splits)

subsection \<open>C1: what decides the success of a unit\<close>

text \<open>
  C1. A unit is reported successful (\<open>process_triplet\<close> returns \<open>True\<close>) exactly when the
  sidecar is read, the audio is normalized and the tags are applied. When the three
  succeed the function returns \<open>True\<close> and the world the cleanup leaves, whatever
  \<open>embed_cover_art\<close> returned and whatever the cleanup caught. The outcome of the unit is
  the same for every cover the unit may name and for every answer of the system to
  \<open>unlink\<close>.
\<close>

theorem process_triplet_success_iff_stages:
  "(fst (process_triplet env triplet w) = Inr True \<longleftrightarrow>
      (\<exists>tags_data mp3_file w1.
         read_tags env (tags triplet) w = Inr tags_data \<and>
         normalize env (audio triplet) w = (Inr (Some mp3_file), w1) \<and>
         fst (apply_tags env mp3_file tags_data w1)))
   \<and> (\<forall>tags_data mp3_file w1 w2.
         read_tags env (tags triplet) w = Inr tags_data \<and>
         normalize env (audio triplet) w = (Inr (Some mp3_file), w1) \<and>
         apply_tags env mp3_file tags_data w1 = (True, w2) \<longrightarrow>
         process_triplet env triplet w =
           (Inr True, snd (cleanup env triplet mp3_file
                        (case cover triplet of
                           None \<Rightarrow> w2
                         | Some cover_file \<Rightarrow> snd (embed_cover_art env mp3_file cover_file w2)))))
   \<and> fst (process_triplet env (triplet\<lparr>cover := c\<rparr>) w) = fst (process_triplet env triplet w)
   \<and> fst (process_triplet (env\<lparr>unlink_denied := u\<rparr>) triplet w) = fst (process_triplet env triplet w)"
proof (intro conjI)
  show "fst (process_triplet env triplet w) = Inr True \<longleftrightarrow>
      (\<exists>tags_data mp3_file w1.
         read_tags env (tags triplet) w = Inr tags_data \<and>
         normalize env (audio triplet) w = (Inr (Some mp3_file), w1) \<and>
         fst (apply_tags env mp3_file tags_data w1))"
    by (auto simp: process_triplet_def Let_def split: sum.splits prod.splits option.splits)
next
  show "\<forall>tags_data mp3_file w1 w2.
         read_tags env (tags triplet) w = Inr tags_data \<and>
         normalize env (audio triplet) w = (Inr (Some mp3_file), w1) \<and>
         apply_tags env mp3_file tags_data w1 = (True, w2) \<longrightarrow>
         process_triplet env triplet w =
           (Inr True, snd (cleanup env triplet mp3_file
                        (case cover triplet of
                           None \<Rightarrow> w2
                         | Some cover_file \<Rightarrow> snd (embed_cover_art env mp3_file cover_file w2))))"
    by (simp add: process_triplet_def)
next
  show "fst (process_triplet env (triplet\<lparr>cover := c\<rparr>) w) = fst (process_triplet env triplet w)"
    by (simp add: process_triplet_def Let_def split: sum.splits prod.splits option.splits)
next
  show "fst (process_triplet (env\<lparr>unlink_denied := u\<rparr>) triplet w) = fst (process_triplet env triplet w)"
    by (simp add: process_triplet_def Let_def read_tags_unlink_denied normalize_unlink_denied
        apply_tags_unlink_denied split: sum.splits prod.splits option.splits)
qed

text \<open>
  The unit of the example has lost its cover and may unlink nothing: embedding the cover
  fails, the cleanup fails at the sidecar, and the unit is reported successful.
\<close>

theorem process_triplet_success_iff_stages_witness:
  "read_tags (demo_env\<lparr>unlink_denied := (\<lambda>p. True)\<rparr>) (tags demo_unit) demo_inplace
     = Inr (JObj [(''title'', JStr ''A''), (''artist'', JStr ''B'')])
   \<and> normalize (demo_env\<lparr>unlink_denied := (\<lambda>p. True)\<rparr>) (audio demo_unit) demo_inplace
     = (Inr (Some ''song.mp3''), demo_inplace)
   \<and> \<not> fst (embed_cover_art (demo_env\<lparr>unlink_denied := (\<lambda>p. True)\<rparr>) ''song.mp3''
              ''song_cover.png'' demo_inplace)
   \<and> fst (process_triplet (demo_env\<lparr>unlink_denied := (\<lambda>p. True)\<rparr>) demo_unit demo_inplace)
       = Inr True
   \<and> map fst (files (snd (process_triplet (demo_env\<lparr>unlink_denied := (\<lambda>p. True)\<rparr>)
                           demo_unit demo_inplace)))
     = [''song_tags.json'', ''song.mp3'']"
  using process_triplet_success_iff_stages
    [of "demo_env\<lparr>unlink_denied := (\<lambda>p. True)\<rparr>" demo_unit demo_inplace]
  by (simp add: model_defs demo_env_def demo_unit_def demo_inplace_def)

subsection \<open>Steps that unlink nothing and lose no path\<close>

lemma unlink_attempts_append:
  "unlink_attempts (xs @ ys) = unlink_attempts xs @ unlink_attempts ys"
  by (simp add: unlink_attempts_def)

lemma unlink_attempts_simps:
  "unlink_attempts [] = []"
  "unlink_attempts (Unlink p # es) = p # unlink_attempts es"
  "unlink_attempts (Spawn cmd # es) = unlink_attempts es"
  "unlink_attempts (Save p # es) = unlink_attempts es"
  by (simp_all add: unlink_attempts_def)

lemma grows_refl: "grows w w"
  by (simp add: grows_def)

lemma grows_trans: "grows w w1 \<Longrightarrow> grows w1 w2 \<Longrightarrow> grows w w2"
  by (simp add: grows_def)

lemma on_disk_update:
  "on_disk (w\<lparr>files := AList.update k v (files w)\<rparr>) p \<longleftrightarrow> p = k \<or> on_disk w p"
  by (simp add: on_disk_def update_conv')

lemma on_disk_log: "on_disk (log_event e w) p = on_disk w p"
  by (simp add: on_disk_def log_event_def)

lemma subprocess_run_grows: "grows w (snd (subprocess_run env cmd w))"
  by (auto simp: subprocess_run_def Let_def grows_def log_event_def on_disk_def update_conv'
      unlink_attempts_append unlink_attempts_simps
      split: list.splits option.splits launch.splits)

lemma mp3_save_grows: "grows w (snd (mp3_save env p f t w))"
  by (auto simp: mp3_save_def Let_def grows_def log_event_def on_disk_def update_conv'
      unlink_attempts_append unlink_attempts_simps)

lemma convert_grows: "grows w (snd (convert_to_mp3 env a b w))"
  using subprocess_run_grows[of w env "ffmpeg_cmd a b"]
  by (auto simp: convert_to_mp3_def split: prod.splits run_result.splits)

lemma normalize_grows: "grows w (snd (normalize env a w))"
  using convert_grows[of w env a "with_suffix a ''.mp3''"]
  by (auto simp: normalize_def Let_def grows_refl split: prod.splits sum.splits)

lemma apply_tags_grows: "grows w (snd (apply_tags env p d w))"
  using mp3_save_grows[of w env p]
  by (auto simp: apply_tags_def grows_refl split: sum.splits prod.splits option.splits)
     (metis snd_conv)+


subsection \<open>C2: a failed unit deletes nothing\<close>



subsection \<open>The cleanup\<close>

lemma unlink_trace: "trace (snd (unlink env p w)) = trace w @ [Unlink p]"
  by (simp add: unlink_def Let_def log_event_def)

lemma unlink_failed_files: "fst (unlink env p w) \<noteq> None \<Longrightarrow> files (snd (unlink env p w)) = files w"
  by (simp add: unlink_def Let_def log_event_def split: if_splits)

lemma unlink_ok_files:
  "fst (unlink env p w) = None \<Longrightarrow> files (snd (unlink env p w)) = AList.delete p (files w)"
  by (simp add: unlink_def Let_def log_event_def split: if_splits)

lemma embed_cover_art_grows: "grows w (snd (embed_cover_art env a c w))"
  using mp3_save_grows[of w env a]
  by (auto simp: embed_cover_art_def Let_def grows_refl
      split: sum.splits prod.splits option.splits)
     (metis snd_conv)+

lemma cleanup_cases:
  "cleanup env t m w =
     (let r1 = unlink env (tags t) w in
      if fst r1 \<noteq> None then r1
      else
        (let r2 = (case cover t of None \<Rightarrow> (None, snd r1) | Some c \<Rightarrow> unlink env c (snd r1)) in
         if fst r2 \<noteq> None then r2
         else if audio t = m then (None, snd r2)
         else if stat_error env (audio t) then (Some OSError, snd r2)
         else if on_disk (snd r2) (audio t) then unlink env (audio t) (snd r2)
         else (None, snd r2)))"
  by (auto simp: cleanup_def Let_def path_exists_def split: prod.splits option.splits)

lemma process_triplet_tagged:
  assumes "read_tags env (tags t) w = Inr d"
      and "normalize env (audio t) w = (Inr (Some m), w1)"
      and "apply_tags env m d w1 = (True, w2)"
      and "w3 = (case cover t of None \<Rightarrow> w2 | Some c \<Rightarrow> snd (embed_cover_art env m c w2))"
  shows "process_triplet env t w = (Inr True, snd (cleanup env t m w3))"
    and "grows w w3"
proof -
  show "process_triplet env t w = (Inr True, snd (cleanup env t m w3))"
    using assms by (simp add: process_triplet_def)
  have g1: "grows w w1" using normalize_grows[of w env "audio t"] assms(2) by simp
  have g2: "grows w1 w2" using apply_tags_grows[of w1 env m d] assms(3) by simp
  have g3: "grows w2 w3"
    using assms(4) embed_cover_art_grows[of w2 env m]
    by (cases "cover t") (simp_all add: grows_refl)
  show "grows w w3" using grows_trans[OF grows_trans[OF g1 g2] g3] .
qed

lemma apply_tags_ok_exists: "apply_tags env m d w = (True, w') \<Longrightarrow> on_disk w' m"
  by (auto simp: apply_tags_def mp3_save_def Let_def log_event_def on_disk_def update_conv'
      split: sum.splits prod.splits option.splits if_splits)

lemma path_suffix_drop:
  "path_suffix a \<noteq> [] \<Longrightarrow> \<exists>i. i < length a \<and> path_suffix a = drop i a"
proof -
  assume ne: "path_suffix a \<noteq> []"
  then obtain i where i: "rfind (CHR ''.'') a = Some i" "i + 1 < length a"
      "path_suffix a = drop i a"
    by (auto simp: path_suffix_def split: option.splits if_splits)
  then have "i < length a \<and> path_suffix a = drop i a" by simp
  then show ?thesis by blast
qed

lemma with_suffix_fixed:
  assumes "with_suffix a s = a" and "s \<noteq> []"
  shows "path_suffix a = s"
proof -
  have ne: "path_suffix a \<noteq> []" using assms by (auto simp: with_suffix_def Let_def)
  then obtain i where i: "i < length a" "path_suffix a = drop i a"
    using path_suffix_drop by blast
  then have "with_suffix a s = take i a @ s" using ne by (simp add: with_suffix_def Let_def)
  then have "take i a @ s = take i a @ drop i a" using assms(1) by (simp only: append_take_drop_id)
  then have "s = drop i a" by (simp only: same_append_eq)
  then show ?thesis using i(2) by simp
qed

lemma lower_dot_mp3: "lower ''.mp3'' = ''.mp3''"
  by (simp add: lower_def lower_char_def)

lemma normalize_Some_cases:
  assumes "normalize env a w = (Inr (Some m), w1)"
  shows "(lower (path_suffix a) = ''.mp3'' \<and> m = a \<and> w1 = w) \<or>
         (lower (path_suffix a) \<noteq> ''.mp3'' \<and> m = with_suffix a ''.mp3'' \<and> m \<noteq> a)"
proof (cases "lower (path_suffix a) = ''.mp3''")
  case True
  then show ?thesis using assms by (simp add: normalize_def)
next
  case False
  then have m: "m = with_suffix a ''.mp3''"
    using assms by (auto simp: normalize_def Let_def split: prod.splits sum.splits if_splits)
  have "with_suffix a ''.mp3'' \<noteq> a"
  proof
    assume "with_suffix a ''.mp3'' = a"
    then have "path_suffix a = ''.mp3''" by (rule with_suffix_fixed) simp
    then show False using False lower_dot_mp3 by simp
  qed
  then show ?thesis using False m by simp
qed

lemma cleanup_first_attempt:
  "\<exists>rest. unlink_attempts (trace (snd (cleanup env t m w))) =
          unlink_attempts (trace w) @ [tags t] @ rest"
proof -
  have u: "\<And>p v. unlink_attempts (trace (snd (unlink env p v))) = unlink_attempts (trace v) @ [p]"
    by (simp add: unlink_trace unlink_attempts_append unlink_attempts_simps)
  show ?thesis
    by (cases "cover t") (auto simp: cleanup_cases Let_def u)
qed

lemma cleanup_sidecar_raises:
  assumes "fst (unlink env (tags t) w) \<noteq> None"
  shows "trace (snd (cleanup env t m w)) = trace w @ [Unlink (tags t)]"
    and "files (snd (cleanup env t m w)) = files w"
  using assms by (simp_all add: cleanup_cases Let_def unlink_trace unlink_failed_files)

lemma cleanup_cover_raises:
  assumes "fst (unlink env (tags t) w) = None" and "cover t = Some c"
      and "fst (unlink env c (snd (unlink env (tags t) w))) \<noteq> None"
  shows "trace (snd (cleanup env t m w)) = trace w @ [Unlink (tags t), Unlink c]"
    and "files (snd (cleanup env t m w)) = AList.delete (tags t) (files w)"
  using assms
  by (simp_all add: cleanup_cases Let_def unlink_trace unlink_failed_files unlink_ok_files)

lemma cleanup_attempted_prefix:
  "\<exists>attempted. trace (snd (cleanup env t m w)) = trace w @ map Unlink attempted \<and>
      attempted \<noteq> [] \<and>
      prefix attempted ([tags t] @ (case cover t of None \<Rightarrow> [] | Some c \<Rightarrow> [c]) @ [audio t])"
proof (cases "fst (unlink env (tags t) w) = None")
  case False
  then have "trace (snd (cleanup env t m w)) = trace w @ map Unlink [tags t]"
    using cleanup_sidecar_raises(1)[of env t w m] by simp
  then show ?thesis by (intro exI[of _ "[tags t]"]) simp
next
  case s: True
  let ?w' = "snd (unlink env (tags t) w)"
  show ?thesis
  proof (cases "cover t")
    case None
    show ?thesis
    proof (cases "audio t \<noteq> m \<and> \<not> stat_error env (audio t) \<and> on_disk ?w' (audio t)")
      case True
      then have "trace (snd (cleanup env t m w)) = trace w @ map Unlink [tags t, audio t]"
        using s None by (simp add: cleanup_cases Let_def unlink_trace)
      then show ?thesis using None by (intro exI[of _ "[tags t, audio t]"]) simp
    next
      case False
      then have "trace (snd (cleanup env t m w)) = trace w @ map Unlink [tags t]"
        using s None by (auto simp add: cleanup_cases Let_def unlink_trace)
      then show ?thesis by (intro exI[of _ "[tags t]"]) simp
    qed
  next
    case (Some c)
    show ?thesis
    proof (cases "fst (unlink env c ?w') = None")
      case False
      then have "trace (snd (cleanup env t m w)) = trace w @ map Unlink [tags t, c]"
        using cleanup_cover_raises(1)[OF s Some False, of m] by simp
      then show ?thesis using Some by (intro exI[of _ "[tags t, c]"]) simp
    next
      case c_ok: True
      show ?thesis
      proof (cases "audio t \<noteq> m \<and> \<not> stat_error env (audio t) \<and>
                    on_disk (snd (unlink env c ?w')) (audio t)")
        case True
        then have "trace (snd (cleanup env t m w)) = trace w @ map Unlink [tags t, c, audio t]"
          using s Some c_ok by (simp add: cleanup_cases Let_def unlink_trace)
        then show ?thesis using Some by (intro exI[of _ "[tags t, c, audio t]"]) simp
      next
        case False
        then have "trace (snd (cleanup env t m w)) = trace w @ map Unlink [tags t, c]"
          using s Some c_ok by (auto simp add: cleanup_cases Let_def unlink_trace)
        then show ?thesis using Some by (intro exI[of _ "[tags t, c]"]) simp
      qed
    qed
  qed
qed

lemma unlink_keeps: "on_disk w q \<Longrightarrow> q \<noteq> p \<Longrightarrow> on_disk (snd (unlink env p w)) q"
  by (simp add: unlink_def Let_def log_event_def on_disk_def delete_conv')

lemma unlink_failed_keeps:
  "fst (unlink env p w) \<noteq> None \<Longrightarrow> on_disk (snd (unlink env p w)) q = on_disk w q"
  using unlink_failed_files[of env p w] by (simp add: on_disk_def)

lemma cleanup_keeps_tagged_file:
  assumes "on_disk w m" and "m \<noteq> tags t" and "cover t \<noteq> Some m" and "audio t = m"
  shows "on_disk (snd (cleanup env t m w)) m"
proof -
  let ?r1 = "unlink env (tags t) w"
  let ?r2 = "case cover t of None \<Rightarrow> (None, snd ?r1) | Some c \<Rightarrow> unlink env c (snd ?r1)"
  have k1: "on_disk (snd ?r1) m" using assms(1,2) by (simp add: unlink_keeps)
  have k2: "on_disk (snd ?r2) m"
    using k1 assms(3) by (cases "cover t") (simp_all add: unlink_keeps)
  show ?thesis using k1 k2 assms(4) by (simp add: cleanup_cases Let_def)
qed

lemma cleanup_raised_keeps_audio:
  assumes "fst (cleanup env t m w) \<noteq> None"
      and "on_disk w (audio t)" and "audio t \<noteq> tags t" and "cover t \<noteq> Some (audio t)"
  shows "on_disk (snd (cleanup env t m w)) (audio t)"
proof -
  let ?r1 = "unlink env (tags t) w"
  let ?r2 = "case cover t of None \<Rightarrow> (None, snd ?r1) | Some c \<Rightarrow> unlink env c (snd ?r1)"
  have k1: "on_disk (snd ?r1) (audio t)" using assms(2,3) by (simp add: unlink_keeps)
  have k2: "on_disk (snd ?r2) (audio t)"
    using k1 assms(4) by (cases "cover t") (simp_all add: unlink_keeps)
  have k3: "fst (unlink env (audio t) (snd ?r2)) \<noteq> None \<Longrightarrow>
            on_disk (snd (unlink env (audio t) (snd ?r2))) (audio t)"
    using k2 by (simp add: unlink_failed_keeps)
  show ?thesis
    using assms(1) k1 k2 k3 by (auto simp: cleanup_cases Let_def split: if_splits)
qed

lemma cleanup_ok_effect:
  assumes "fst (cleanup env t m w3) = None"
      and "w4 = snd (cleanup env t m w3)"
  shows "map_of (files w4) =
         (\<lambda>p. if p = tags t \<or> cover t = Some p \<or> (p = audio t \<and> audio t \<noteq> m) then None
              else map_of (files w3) p)"
    and "unlink_attempts (trace w4) =
         unlink_attempts (trace w3) @ [tags t] @ (case cover t of None \<Rightarrow> [] | Some c \<Rightarrow> [c]) @
         (if audio t \<noteq> m \<and> audio t \<noteq> tags t \<and> cover t \<noteq> Some (audio t) \<and>
             on_disk w3 (audio t)
          then [audio t] else [])"
proof -
  note w4 = assms(2)
  let ?r1 = "unlink env (tags t) w3"
  let ?r2 = "case cover t of None \<Rightarrow> (None, snd ?r1) | Some c \<Rightarrow> unlink env c (snd ?r1)"
  have ok1: "fst ?r1 = None"
    using assms(1) by (auto simp: cleanup_cases Let_def split: if_splits)
  have ok2: "fst ?r2 = None"
    using assms(1) ok1 by (auto simp: cleanup_cases Let_def split: if_splits)
  have ns: "audio t \<noteq> m \<Longrightarrow> \<not> stat_error env (audio t)"
    using assms(1) ok1 ok2 by (auto simp: cleanup_cases Let_def split: if_splits)
  have f1: "files (snd ?r1) = AList.delete (tags t) (files w3)"
    using ok1 by (rule unlink_ok_files)
  have t1: "trace (snd ?r1) = trace w3 @ [Unlink (tags t)]" by (rule unlink_trace)
  have f2: "map_of (files (snd ?r2)) =
              (\<lambda>p. if p = tags t \<or> cover t = Some p then None else map_of (files w3) p)"
  proof (cases "cover t")
    case None
    then show ?thesis using f1 by (auto simp: delete_conv' fun_eq_iff)
  next
    case (Some c)
    then have "fst (unlink env c (snd ?r1)) = None" using ok2 by simp
    then have "files (snd ?r2) = AList.delete c (AList.delete (tags t) (files w3))"
      using Some f1 unlink_ok_files[of env c "snd ?r1"] by simp
    then show ?thesis using Some by (auto simp: delete_conv' fun_eq_iff)
  qed
  have t2: "trace (snd ?r2) =
              trace w3 @ [Unlink (tags t)] @ (case cover t of None \<Rightarrow> [] | Some c \<Rightarrow> [Unlink c])"
    using t1 by (cases "cover t") (simp_all add: unlink_trace)
  have e2: "on_disk (snd ?r2) (audio t) \<longleftrightarrow>
              audio t \<noteq> tags t \<and> cover t \<noteq> Some (audio t) \<and> on_disk w3 (audio t)"
    using f2 by (auto simp: on_disk_def)
  let ?third = "audio t \<noteq> m \<and> on_disk (snd ?r2) (audio t)"
  have c4: "cleanup env t m w3 = (if ?third then unlink env (audio t) (snd ?r2) else (None, snd ?r2))"
    using ok1 ok2 ns by (auto simp add: cleanup_cases Let_def)
  have c4T: "?third \<Longrightarrow> cleanup env t m w3 = unlink env (audio t) (snd ?r2)"
    unfolding c4 by (rule if_P)
  have c4F: "\<not> ?third \<Longrightarrow> cleanup env t m w3 = (None, snd ?r2)"
    unfolding c4 by (rule if_not_P)
  have ok3: "?third \<Longrightarrow> fst (unlink env (audio t) (snd ?r2)) = None"
    using assms(1) c4T by simp
  show files: "map_of (files w4) =
         (\<lambda>p. if p = tags t \<or> cover t = Some p \<or> (p = audio t \<and> audio t \<noteq> m) then None
              else map_of (files w3) p)"
  proof (cases ?third)
    case True
    then have "files w4 = AList.delete (audio t) (files (snd ?r2))"
      using c4T w4 ok3 unlink_ok_files[of env "audio t" "snd ?r2"] by simp
    then show ?thesis using f2 True by (auto simp: delete_conv' fun_eq_iff)
  next
    case False
    then have "w4 = snd ?r2" using c4F w4 by simp
    moreover have "audio t \<noteq> m \<Longrightarrow> map_of (files (snd ?r2)) (audio t) = None"
      using False by (simp add: on_disk_def)
    ultimately show ?thesis using f2 by (auto simp: fun_eq_iff)
  qed
  show "unlink_attempts (trace w4) =
         unlink_attempts (trace w3) @ [tags t] @ (case cover t of None \<Rightarrow> [] | Some c \<Rightarrow> [c]) @
         (if audio t \<noteq> m \<and> audio t \<noteq> tags t \<and> cover t \<noteq> Some (audio t) \<and>
             on_disk w3 (audio t)
          then [audio t] else [])"
  proof (cases ?third)
    case True
    then have "trace w4 = trace (snd ?r2) @ [Unlink (audio t)]"
      using c4T w4 by (simp add: unlink_trace)
    then show ?thesis
      using True t2 e2
      by (cases "cover t") (auto simp: unlink_attempts_append unlink_attempts_simps)
  next
    case False
    then have "w4 = snd ?r2" using c4F w4 by simp
    then show ?thesis
      using False t2 e2
      by (cases "cover t") (auto simp: unlink_attempts_append unlink_attempts_simps)
  qed
qed

subsection \<open>C3: what the cleanup deletes\<close>

text \<open>
  C3, as amended. When the tags were applied, the cleanup runs whatever \<open>embed_cover_art\<close>
  returned: the unit returns \<open>True\<close>, its final state is the one the cleanup leaves, and
  \<open>unlink\<close> is called on the sidecar first. If the cleanup catches no exception, then exactly
  these paths are gone and every other file is as it was before the cleanup: the sidecar,
  the cover if the unit names one, and the original audio when the tagged file has another
  path; \<open>unlink\<close> was called on the sidecar, then on the cover, then on the original audio
  if its path differs from the tagged one and it still exists. The tagged path is the audio
  path exactly when the suffix of the audio path, as \<open>PurePath.suffix\<close> reads it and in
  lower case, is \<open>.mp3\<close>; the audio file of such a unit is kept, also when the cleanup
  raises. A step of the cleanup that raises ends it, and the files that come after it in the
  order sidecar, cover, original audio stay: when unlinking the sidecar raises no file is
  removed, when unlinking the cover raises only the sidecar is removed, and whenever the
  cleanup raises the original audio is still on disk.
\<close>

theorem cleanup_deletes_exactly:
  assumes "read_tags env (tags t) w = Inr d"
      and "normalize env (audio t) w = (Inr (Some m), w1)"
      and "apply_tags env m d w1 = (True, w2)"
      and "w3 = (case cover t of None \<Rightarrow> w2 | Some c \<Rightarrow> snd (embed_cover_art env m c w2))"
      and "w4 = snd (process_triplet env t w)"
  shows "fst (process_triplet env t w) = Inr True
     \<and> w4 = snd (cleanup env t m w3)
     \<and> prefix (unlink_attempts (trace w) @ [tags t]) (unlink_attempts (trace w4))
     \<and> (fst (cleanup env t m w3) = None \<longrightarrow>
          map_of (files w4) =
            (\<lambda>p. if p = tags t \<or> cover t = Some p \<or> (p = audio t \<and> audio t \<noteq> m) then None
                 else map_of (files w3) p) \<and>
          unlink_attempts (trace w4) =
            unlink_attempts (trace w) @ [tags t] @
            (case cover t of None \<Rightarrow> [] | Some c \<Rightarrow> [c]) @
            (if audio t \<noteq> m \<and> audio t \<noteq> tags t \<and> cover t \<noteq> Some (audio t) \<and>
                on_disk w3 (audio t)
             then [audio t] else []))
     \<and> (m = audio t \<longleftrightarrow> lower (path_suffix (audio t)) = ''.mp3'')
     \<and> (lower (path_suffix (audio t)) \<noteq> ''.mp3'' \<longrightarrow> m = with_suffix (audio t) ''.mp3'')
     \<and> (lower (path_suffix (audio t)) = ''.mp3'' \<and> audio t \<noteq> tags t \<and>
          cover t \<noteq> Some (audio t) \<longrightarrow> on_disk w4 (audio t))
     \<and> (fst (unlink env (tags t) w3) \<noteq> None \<longrightarrow>
          unlink_attempts (trace w4) = unlink_attempts (trace w) @ [tags t] \<and>
          files w4 = files w3)
     \<and> (\<forall>c. fst (unlink env (tags t) w3) = None \<and> cover t = Some c \<and>
             fst (unlink env c (snd (unlink env (tags t) w3))) \<noteq> None \<longrightarrow>
          unlink_attempts (trace w4) = unlink_attempts (trace w) @ [tags t, c] \<and>
          files w4 = AList.delete (tags t) (files w3))
     \<and> (fst (cleanup env t m w3) \<noteq> None \<and> on_disk w (audio t) \<and> audio t \<noteq> tags t \<and>
          cover t \<noteq> Some (audio t) \<longrightarrow> on_disk w4 (audio t))"
proof -
  have p: "process_triplet env t w = (Inr True, snd (cleanup env t m w3))"
    and g: "grows w w3"
    using process_triplet_tagged[OF assms(1-4)] by simp_all
  have w4: "w4 = snd (cleanup env t m w3)" using p assms(5) by simp
  have u3: "unlink_attempts (trace w3) = unlink_attempts (trace w)"
    using g by (simp add: grows_def)
  have f: "fst (process_triplet env t w) = Inr True" using p by simp
  have first: "prefix (unlink_attempts (trace w) @ [tags t]) (unlink_attempts (trace w4))"
  proof -
    obtain rest where "unlink_attempts (trace w4) = unlink_attempts (trace w3) @ [tags t] @ rest"
      using cleanup_first_attempt[of env t m w3] w4 by blast
    then have "unlink_attempts (trace w4) = (unlink_attempts (trace w) @ [tags t]) @ rest"
      using u3 by simp
    then show ?thesis by (simp only: prefixI)
  qed
  have exact: "fst (cleanup env t m w3) = None \<longrightarrow>
          map_of (files w4) =
            (\<lambda>p. if p = tags t \<or> cover t = Some p \<or> (p = audio t \<and> audio t \<noteq> m) then None
                 else map_of (files w3) p) \<and>
          unlink_attempts (trace w4) =
            unlink_attempts (trace w) @ [tags t] @
            (case cover t of None \<Rightarrow> [] | Some c \<Rightarrow> [c]) @
            (if audio t \<noteq> m \<and> audio t \<noteq> tags t \<and> cover t \<noteq> Some (audio t) \<and>
                on_disk w3 (audio t)
             then [audio t] else [])"
  proof
    assume ok: "fst (cleanup env t m w3) = None"
    show "map_of (files w4) =
            (\<lambda>p. if p = tags t \<or> cover t = Some p \<or> (p = audio t \<and> audio t \<noteq> m) then None
                 else map_of (files w3) p) \<and>
          unlink_attempts (trace w4) =
            unlink_attempts (trace w) @ [tags t] @
            (case cover t of None \<Rightarrow> [] | Some c \<Rightarrow> [c]) @
            (if audio t \<noteq> m \<and> audio t \<noteq> tags t \<and> cover t \<noteq> Some (audio t) \<and>
                on_disk w3 (audio t)
             then [audio t] else [])"
      using cleanup_ok_effect(1)[OF ok w4] cleanup_ok_effect(2)[OF ok w4] u3 by simp
  qed
  note nc = normalize_Some_cases[OF assms(2)]
  have same: "m = audio t \<longleftrightarrow> lower (path_suffix (audio t)) = ''.mp3''"
    using nc by auto
  have sibling: "lower (path_suffix (audio t)) \<noteq> ''.mp3'' \<longrightarrow> m = with_suffix (audio t) ''.mp3''"
    using nc by auto
  have kept: "lower (path_suffix (audio t)) = ''.mp3'' \<and> audio t \<noteq> tags t \<and>
          cover t \<noteq> Some (audio t) \<longrightarrow> on_disk w4 (audio t)"
  proof
    assume h: "lower (path_suffix (audio t)) = ''.mp3'' \<and> audio t \<noteq> tags t \<and>
          cover t \<noteq> Some (audio t)"
    then have m: "audio t = m" using same by simp
    have "on_disk w2 m" using assms(3) by (rule apply_tags_ok_exists)
    moreover have "grows w2 w3"
      using assms(4) embed_cover_art_grows[of w2 env m]
      by (cases "cover t") (simp_all add: grows_refl)
    ultimately have "on_disk w3 m" by (simp add: grows_def)
    then have "on_disk (snd (cleanup env t m w3)) m"
      using h m by (intro cleanup_keeps_tagged_file) simp_all
    then show "on_disk w4 (audio t)" using w4 m by simp
  qed
  have sidecar: "fst (unlink env (tags t) w3) \<noteq> None \<longrightarrow>
          unlink_attempts (trace w4) = unlink_attempts (trace w) @ [tags t] \<and>
          files w4 = files w3"
    using cleanup_sidecar_raises[of env t w3 m] w4 u3
    by (simp add: unlink_attempts_append unlink_attempts_simps)
  have cov: "\<forall>c. fst (unlink env (tags t) w3) = None \<and> cover t = Some c \<and>
             fst (unlink env c (snd (unlink env (tags t) w3))) \<noteq> None \<longrightarrow>
          unlink_attempts (trace w4) = unlink_attempts (trace w) @ [tags t, c] \<and>
          files w4 = AList.delete (tags t) (files w3)"
    using cleanup_cover_raises[of env t w3 _ m] w4 u3
    by (simp add: unlink_attempts_append unlink_attempts_simps)
  have raised: "fst (cleanup env t m w3) \<noteq> None \<and> on_disk w (audio t) \<and> audio t \<noteq> tags t \<and>
          cover t \<noteq> Some (audio t) \<longrightarrow> on_disk w4 (audio t)"
  proof
    assume h: "fst (cleanup env t m w3) \<noteq> None \<and> on_disk w (audio t) \<and> audio t \<noteq> tags t \<and>
          cover t \<noteq> Some (audio t)"
    then have "on_disk w3 (audio t)" using g by (simp add: grows_def)
    then show "on_disk w4 (audio t)"
      using h w4 cleanup_raised_keeps_audio[of env t m w3] by simp
  qed
  show ?thesis
    using f w4 first exact same sibling kept sidecar cov raised by (intro conjI)
qed

text \<open>
  The end-to-end scenario: the three staging files are removed and \<open>song.mp3\<close> is left.
  When the system refuses to unlink \<open>song.flac\<close>, the cleanup raises in its last step and
  \<open>song.flac\<close> stays.
\<close>

theorem cleanup_deletes_exactly_witness:
  "fst (process_triplet demo_env demo_flac_unit demo_flac) = Inr True
   \<and> fst (cleanup demo_env demo_flac_unit ''song.mp3''
            (snd (embed_cover_art demo_env ''song.mp3'' ''song_cover.png''
                   (snd (apply_tags demo_env ''song.mp3''
                          (JObj [(''title'', JStr ''A''), (''artist'', JStr ''B'')])
                          (snd (normalize demo_env ''song.flac'' demo_flac))))))) = None
   \<and> map fst (files (snd (process_triplet demo_env demo_flac_unit demo_flac))) = [''song.mp3'']
   \<and> unlink_attempts (trace (snd (process_triplet demo_env demo_flac_unit demo_flac)))
       = [''song_tags.json'', ''song_cover.png'', ''song.flac'']
   \<and> fst (cleanup (demo_env\<lparr>unlink_denied := (\<lambda>p. p = ''song.flac'')\<rparr>) demo_flac_unit
            ''song.mp3''
            (snd (embed_cover_art (demo_env\<lparr>unlink_denied := (\<lambda>p. p = ''song.flac'')\<rparr>)
                   ''song.mp3'' ''song_cover.png''
                   (snd (apply_tags (demo_env\<lparr>unlink_denied := (\<lambda>p. p = ''song.flac'')\<rparr>)
                          ''song.mp3''
                          (JObj [(''title'', JStr ''A''), (''artist'', JStr ''B'')])
                          (snd (normalize (demo_env\<lparr>unlink_denied := (\<lambda>p. p = ''song.flac'')\<rparr>)
                                  ''song.flac'' demo_flac))))))) = Some PermissionError
   \<and> on_disk (snd (process_triplet (demo_env\<lparr>unlink_denied := (\<lambda>p. p = ''song.flac'')\<rparr>)
                       demo_flac_unit demo_flac)) ''song.flac''"
proof -
  let ?d = "JObj [(''title'', JStr ''A''), (''artist'', JStr ''B'')]"
  let ?w1 = "snd (normalize demo_env ''song.flac'' demo_flac)"
  let ?w2 = "snd (apply_tags demo_env ''song.mp3'' ?d ?w1)"
  let ?w3 = "snd (embed_cover_art demo_env ''song.mp3'' ''song_cover.png'' ?w2)"
  have r: "read_tags demo_env (tags demo_flac_unit) demo_flac = Inr ?d"
    by (simp add: model_defs demo_env_def demo_flac_unit_def demo_flac_def)
  have n: "normalize demo_env (audio demo_flac_unit) demo_flac = (Inr (Some ''song.mp3''), ?w1)"
    by (simp add: model_defs Let_def demo_env_def demo_flac_unit_def demo_flac_def)
  have a: "apply_tags demo_env ''song.mp3'' ?d ?w1 = (True, ?w2)"
    by (simp add: model_defs Let_def demo_env_def demo_flac_def)
  have w3: "?w3 = (case cover demo_flac_unit of None \<Rightarrow> ?w2
                   | Some c \<Rightarrow> snd (embed_cover_art demo_env ''song.mp3'' c ?w2))"
    by (simp add: demo_flac_unit_def)
  have c: "fst (cleanup demo_env demo_flac_unit ''song.mp3'' ?w3) = None"
    by (simp add: model_defs Let_def demo_env_def demo_flac_unit_def demo_flac_def)
  have fs: "map fst (files (snd (cleanup demo_env demo_flac_unit ''song.mp3'' ?w3)))
              = [''song.mp3'']"
    by (simp add: model_defs Let_def demo_env_def demo_flac_unit_def demo_flac_def)
  have o3: "on_disk ?w3 ''song.flac''"
    by (simp add: model_defs Let_def demo_env_def demo_flac_def)
  have u0: "unlink_attempts (trace demo_flac) = []"
    by (simp add: demo_flac_def unlink_attempts_def)
  have u: "demo_flac_unit = \<lparr>audio = ''song.flac'', tags = ''song_tags.json'',
                             cover = Some ''song_cover.png''\<rparr>"
    by (simp add: demo_flac_unit_def)
  note inst = cleanup_deletes_exactly[OF r n a w3 refl]
  have f: "fst (process_triplet demo_env demo_flac_unit demo_flac) = Inr True"
    using inst by blast
  have w4: "snd (process_triplet demo_env demo_flac_unit demo_flac)
              = snd (cleanup demo_env demo_flac_unit ''song.mp3'' ?w3)"
    using inst by blast
  have "fst (cleanup demo_env demo_flac_unit ''song.mp3'' ?w3) = None \<longrightarrow>
        unlink_attempts (trace (snd (process_triplet demo_env demo_flac_unit demo_flac))) =
            unlink_attempts (trace demo_flac) @ [tags demo_flac_unit] @
            (case cover demo_flac_unit of None \<Rightarrow> [] | Some c \<Rightarrow> [c]) @
            (if audio demo_flac_unit \<noteq> ''song.mp3'' \<and> audio demo_flac_unit \<noteq> tags demo_flac_unit \<and>
                cover demo_flac_unit \<noteq> Some (audio demo_flac_unit) \<and>
                on_disk ?w3 (audio demo_flac_unit)
             then [audio demo_flac_unit] else [])"
    using inst by blast
  then have tr: "unlink_attempts (trace (snd (process_triplet demo_env demo_flac_unit demo_flac)))
       = [''song_tags.json'', ''song_cover.png'', ''song.flac'']"
    using c u0 o3 by (simp add: u)
  have first: "fst (process_triplet demo_env demo_flac_unit demo_flac) = Inr True
   \<and> fst (cleanup demo_env demo_flac_unit ''song.mp3'' ?w3) = None
   \<and> map fst (files (snd (process_triplet demo_env demo_flac_unit demo_flac))) = [''song.mp3'']
   \<and> unlink_attempts (trace (snd (process_triplet demo_env demo_flac_unit demo_flac)))
       = [''song_tags.json'', ''song_cover.png'', ''song.flac'']"
    using f c fs tr w4 by simp
  let ?e = "demo_env\<lparr>unlink_denied := (\<lambda>p. p = ''song.flac'')\<rparr>"
  let ?v1 = "snd (normalize ?e ''song.flac'' demo_flac)"
  let ?v2 = "snd (apply_tags ?e ''song.mp3'' ?d ?v1)"
  let ?v3 = "snd (embed_cover_art ?e ''song.mp3'' ''song_cover.png'' ?v2)"
  have r': "read_tags ?e (tags demo_flac_unit) demo_flac = Inr ?d"
    by (simp add: model_defs demo_env_def demo_flac_unit_def demo_flac_def)
  have n': "normalize ?e (audio demo_flac_unit) demo_flac = (Inr (Some ''song.mp3''), ?v1)"
    by (simp add: model_defs Let_def demo_env_def demo_flac_unit_def demo_flac_def)
  have a': "apply_tags ?e ''song.mp3'' ?d ?v1 = (True, ?v2)"
    by (simp add: model_defs Let_def demo_env_def demo_flac_def)
  have v3: "?v3 = (case cover demo_flac_unit of None \<Rightarrow> ?v2
                   | Some c \<Rightarrow> snd (embed_cover_art ?e ''song.mp3'' c ?v2))"
    by (simp add: demo_flac_unit_def)
  have c': "fst (cleanup ?e demo_flac_unit ''song.mp3'' ?v3) = Some PermissionError"
    by (simp add: model_defs Let_def demo_env_def demo_flac_unit_def demo_flac_def)
  have pre: "on_disk demo_flac (audio demo_flac_unit)"
    "audio demo_flac_unit \<noteq> tags demo_flac_unit"
    "cover demo_flac_unit \<noteq> Some (audio demo_flac_unit)"
    by (simp_all add: on_disk_def demo_flac_def demo_flac_unit_def)
  have ne: "fst (cleanup ?e demo_flac_unit ''song.mp3'' ?v3) \<noteq> None" using c' by simp
  have "on_disk (snd (process_triplet ?e demo_flac_unit demo_flac)) (audio demo_flac_unit)"
    using cleanup_deletes_exactly[OF r' n' a' v3 refl] ne pre by blast
  then have kept: "on_disk (snd (process_triplet ?e demo_flac_unit demo_flac)) ''song.flac''"
    by (simp add: u)
  show ?thesis using first c' kept by blast
qed

text \<open>
  The claim without the amendment fails when a deletion raises: here the system refuses to
  unlink the sidecar. The tags are applied and the unit is reported successful, the unit
  names a cover, and yet the cover and the original audio are still on disk; \<open>unlink\<close> was
  called on the sidecar only.
\<close>

theorem cleanup_deletes_exactly_counterexample:
  "fst (apply_tags (demo_env\<lparr>unlink_denied := (\<lambda>p. p = ''song_tags.json'')\<rparr>) ''song.mp3''
          (JObj [(''title'', JStr ''A''), (''artist'', JStr ''B'')])
          (snd (normalize (demo_env\<lparr>unlink_denied := (\<lambda>p. p = ''song_tags.json'')\<rparr>)
                  ''song.flac'' demo_flac)))
   \<and> fst (process_triplet (demo_env\<lparr>unlink_denied := (\<lambda>p. p = ''song_tags.json'')\<rparr>)
            demo_flac_unit demo_flac) = Inr True
   \<and> cover demo_flac_unit = Some ''song_cover.png''
   \<and> map fst (files (snd (process_triplet
                            (demo_env\<lparr>unlink_denied := (\<lambda>p. p = ''song_tags.json'')\<rparr>)
                            demo_flac_unit demo_flac)))
       = [''song_tags.json'', ''song.flac'', ''song_cover.png'', ''song.mp3'']
   \<and> unlink_attempts (trace (snd (process_triplet
                            (demo_env\<lparr>unlink_denied := (\<lambda>p. p = ''song_tags.json'')\<rparr>)
                            demo_flac_unit demo_flac)))
       = [''song_tags.json'']"
  by (simp add: model_defs Let_def unlink_attempts_def demo_env_def demo_flac_unit_def
      demo_flac_def)

subsection \<open>C9: the first failing deletion ends the cleanup\<close>

text \<open>
  C9. In a unit whose tags were applied, the deletions are attempted in the order sidecar,
  cover, original audio: the paths on which \<open>unlink\<close> is called form a non-empty prefix of
  that list. If unlinking the sidecar raises, no other deletion is attempted and no file is
  removed. If unlinking the cover raises, the original audio is not attempted and only the
  sidecar is removed. In each case the unit is reported successful.
\<close>

theorem cleanup_stops_at_first_failure:
  assumes "read_tags env (tags t) w = Inr d"
      and "normalize env (audio t) w = (Inr (Some m), w1)"
      and "apply_tags env m d w1 = (True, w2)"
      and "w3 = (case cover t of None \<Rightarrow> w2 | Some c \<Rightarrow> snd (embed_cover_art env m c w2))"
      and "w4 = snd (process_triplet env t w)"
  shows "fst (process_triplet env t w) = Inr True
     \<and> (\<exists>attempted. trace w4 = trace w3 @ map Unlink attempted \<and> attempted \<noteq> [] \<and>
          prefix attempted
            ([tags t] @ (case cover t of None \<Rightarrow> [] | Some c \<Rightarrow> [c]) @ [audio t]))
     \<and> (fst (unlink env (tags t) w3) \<noteq> None \<longrightarrow>
          trace w4 = trace w3 @ [Unlink (tags t)] \<and> files w4 = files w3)
     \<and> (\<forall>c. fst (unlink env (tags t) w3) = None \<and> cover t = Some c \<and>
             fst (unlink env c (snd (unlink env (tags t) w3))) \<noteq> None \<longrightarrow>
          trace w4 = trace w3 @ [Unlink (tags t), Unlink c] \<and>
          files w4 = AList.delete (tags t) (files w3))"
proof -
  have p: "process_triplet env t w = (Inr True, snd (cleanup env t m w3))"
    using process_triplet_tagged(1)[OF assms(1-4)] .
  then have w4: "w4 = snd (cleanup env t m w3)" using assms(5) by simp
  have a: "fst (unlink env (tags t) w3) \<noteq> None \<longrightarrow>
          trace w4 = trace w3 @ [Unlink (tags t)] \<and> files w4 = files w3"
    using cleanup_sidecar_raises[of env t w3 m] w4 by simp
  have b: "\<forall>c. fst (unlink env (tags t) w3) = None \<and> cover t = Some c \<and>
             fst (unlink env c (snd (unlink env (tags t) w3))) \<noteq> None \<longrightarrow>
          trace w4 = trace w3 @ [Unlink (tags t), Unlink c] \<and>
          files w4 = AList.delete (tags t) (files w3)"
    using cleanup_cover_raises[of env t w3 _ m] w4 by simp
  have c: "\<exists>attempted. trace w4 = trace w3 @ map Unlink attempted \<and> attempted \<noteq> [] \<and>
          prefix attempted
            ([tags t] @ (case cover t of None \<Rightarrow> [] | Some c \<Rightarrow> [c]) @ [audio t])"
    using cleanup_attempted_prefix[of env t m w3] w4 by simp
  have f: "fst (process_triplet env t w) = Inr True" using p by simp
  show ?thesis using f a b c by (intro conjI)
qed

text \<open>
  The system refuses to unlink the cover: the sidecar is removed, the cover and the FLAC
  file stay, \<open>unlink\<close> is never called on the FLAC file, and the unit is successful.
\<close>

theorem cleanup_stops_at_first_failure_witness:
  "fst (process_triplet (demo_env\<lparr>unlink_denied := (\<lambda>p. p = ''song_cover.png'')\<rparr>)
            demo_flac_unit demo_flac) = Inr True
   \<and> map fst (files (snd (process_triplet
                            (demo_env\<lparr>unlink_denied := (\<lambda>p. p = ''song_cover.png'')\<rparr>)
                            demo_flac_unit demo_flac)))
       = [''song.flac'', ''song_cover.png'', ''song.mp3'']
   \<and> unlink_attempts (trace (snd (process_triplet
                            (demo_env\<lparr>unlink_denied := (\<lambda>p. p = ''song_cover.png'')\<rparr>)
                            demo_flac_unit demo_flac)))
       = [''song_tags.json'', ''song_cover.png'']"
proof -
  let ?e = "demo_env\<lparr>unlink_denied := (\<lambda>p. p = ''song_cover.png'')\<rparr>"
  let ?d = "JObj [(''title'', JStr ''A''), (''artist'', JStr ''B'')]"
  let ?w1 = "snd (normalize ?e ''song.flac'' demo_flac)"
  let ?w2 = "snd (apply_tags ?e ''song.mp3'' ?d ?w1)"
  let ?w3 = "snd (embed_cover_art ?e ''song.mp3'' ''song_cover.png'' ?w2)"
  have r: "read_tags ?e (tags demo_flac_unit) demo_flac = Inr ?d"
    by (simp add: model_defs demo_env_def demo_flac_unit_def demo_flac_def)
  have n: "normalize ?e (audio demo_flac_unit) demo_flac = (Inr (Some ''song.mp3''), ?w1)"
    by (simp add: model_defs Let_def demo_env_def demo_flac_unit_def demo_flac_def)
  have a: "apply_tags ?e ''song.mp3'' ?d ?w1 = (True, ?w2)"
    by (simp add: model_defs Let_def demo_env_def demo_flac_def)
  have w3: "?w3 = (case cover demo_flac_unit of None \<Rightarrow> ?w2
                   | Some c \<Rightarrow> snd (embed_cover_art ?e ''song.mp3'' c ?w2))"
    by (simp add: demo_flac_unit_def)
  show ?thesis
    using cleanup_stops_at_first_failure[OF r n a w3 refl]
    by (simp add: model_defs Let_def unlink_attempts_def demo_env_def demo_flac_unit_def
        demo_flac_def)
qed

subsection \<open>The matcher\<close>

lemmas match_defs =
  find_triplets_def glob_tags_def match_one_def base_name_of_def audio_candidates_def
  cover_candidates_def audio_exts_def cover_exts_def path_stem_def path_exists_def on_disk_def
  suffix_to_prefix

lemma first_match_value:
  "first_match env w cs =
     (if \<exists>c \<in> set (takeWhile (\<lambda>c. \<not> on_disk w c) cs @
                      take 1 (dropWhile (\<lambda>c. \<not> on_disk w c) cs)). stat_error env c
      then Inl OSError
      else Inr (List.find (on_disk w) cs,
                takeWhile (\<lambda>c. \<not> on_disk w c) cs @ take 1 (dropWhile (\<lambda>c. \<not> on_disk w c) cs)))"
  by (induction cs) (auto simp: path_exists_def)

lemma match_all_member:
  "match_all env w js = Inr ts \<Longrightarrow>
     t \<in> set ts \<longleftrightarrow> (\<exists>json_file \<in> set js. match_one env w json_file = Inr (Some t))"
proof (induction js arbitrary: ts)
  case Nil
  then show ?case by simp
next
  case (Cons j js)
  from Cons.prems obtain r ts' where r: "match_one env w j = Inr r"
    and ts': "match_all env w js = Inr ts'"
    and ts: "ts = (case r of None \<Rightarrow> ts' | Some u \<Rightarrow> u # ts')"
    by (auto split: sum.splits)
  show ?case using Cons.IH[OF ts'] r ts by (cases r) auto
qed

lemma find_triplets_member:
  "find_triplets env w = Inr ts \<Longrightarrow>
     t \<in> set ts \<longleftrightarrow> (\<exists>json_file \<in> set (glob_tags w). match_one env w json_file = Inr (Some t))"
  unfolding find_triplets_def by (rule match_all_member)

lemma match_one_Some:
  "match_one env w json_file = Inr (Some t) \<Longrightarrow>
     tags t = json_file \<and>
     (\<exists>probed. first_match env w (audio_candidates (base_name_of json_file))
                 = Inr (Some (audio t), probed)) \<and>
     (\<exists>probed. first_match env w (cover_candidates (base_name_of json_file))
                 = Inr (cover t, probed))"
  by (auto simp: match_one_def Let_def split: option.splits sum.splits prod.splits)

subsection \<open>C4: the first existing candidate wins\<close>

text \<open>
  C4. For a base name the audio candidates are tried in the order \<open>.m4a\<close>, \<open>.mp4\<close>, \<open>.mp3\<close>,
  \<open>.flac\<close> and the cover candidates in the order \<open>.jpeg\<close>, \<open>.jpg\<close>, \<open>.png\<close>, \<open>.webp\<close>; the
  first candidate that exists is taken. \<open>exists()\<close> is called on the candidates up to and
  including the one taken and on none after it; if one of these calls raises, the search
  ends with that exception and nothing is taken. When the \<open>.m4a\<close> file exists it is taken
  after a single check, whatever else exists. Every unit the matcher returns has its audio
  and its cover chosen this way, so a unit whose base name has an \<open>.m4a\<close> file never has the
  \<open>.mp3\<close> sibling as its audio.
\<close>

theorem first_match_priority:
  "first_match env w (audio_candidates b) =
     (if stat_error env (b @ ''.m4a'') then Inl OSError
      else if on_disk w (b @ ''.m4a'') then Inr (Some (b @ ''.m4a''), [b @ ''.m4a''])
      else if stat_error env (b @ ''.mp4'') then Inl OSError
      else if on_disk w (b @ ''.mp4'') then Inr (Some (b @ ''.mp4''), [b @ ''.m4a'', b @ ''.mp4''])
      else if stat_error env (b @ ''.mp3'') then Inl OSError
      else if on_disk w (b @ ''.mp3'')
        then Inr (Some (b @ ''.mp3''), [b @ ''.m4a'', b @ ''.mp4'', b @ ''.mp3''])
      else if stat_error env (b @ ''.flac'') then Inl OSError
      else if on_disk w (b @ ''.flac'')
        then Inr (Some (b @ ''.flac''), [b @ ''.m4a'', b @ ''.mp4'', b @ ''.mp3'', b @ ''.flac''])
      else Inr (None, [b @ ''.m4a'', b @ ''.mp4'', b @ ''.mp3'', b @ ''.flac'']))
   \<and> first_match env w (cover_candidates b) =
     (if stat_error env (b @ ''_cover.jpeg'') then Inl OSError
      else if on_disk w (b @ ''_cover.jpeg'')
        then Inr (Some (b @ ''_cover.jpeg''), [b @ ''_cover.jpeg''])
      else if stat_error env (b @ ''_cover.jpg'') then Inl OSError
      else if on_disk w (b @ ''_cover.jpg'')
        then Inr (Some (b @ ''_cover.jpg''), [b @ ''_cover.jpeg'', b @ ''_cover.jpg''])
      else if stat_error env (b @ ''_cover.png'') then Inl OSError
      else if on_disk w (b @ ''_cover.png'')
        then Inr (Some (b @ ''_cover.png''),
                  [b @ ''_cover.jpeg'', b @ ''_cover.jpg'', b @ ''_cover.png''])
      else if stat_error env (b @ ''_cover.webp'') then Inl OSError
      else if on_disk w (b @ ''_cover.webp'')
        then Inr (Some (b @ ''_cover.webp''),
                  [b @ ''_cover.jpeg'', b @ ''_cover.jpg'', b @ ''_cover.png'', b @ ''_cover.webp''])
      else Inr (None,
                [b @ ''_cover.jpeg'', b @ ''_cover.jpg'', b @ ''_cover.png'', b @ ''_cover.webp'']))
   \<and> first_match env w cs =
       (if \<exists>c \<in> set (takeWhile (\<lambda>c. \<not> on_disk w c) cs @
                        take 1 (dropWhile (\<lambda>c. \<not> on_disk w c) cs)). stat_error env c
        then Inl OSError
        else Inr (List.find (on_disk w) cs,
                  takeWhile (\<lambda>c. \<not> on_disk w c) cs @
                  take 1 (dropWhile (\<lambda>c. \<not> on_disk w c) cs)))
   \<and> (path_exists env w (b @ ''.m4a'') = Inr True \<longrightarrow>
        first_match env w (audio_candidates b) = Inr (Some (b @ ''.m4a''), [b @ ''.m4a'']))
   \<and> (\<forall>ts. find_triplets env w = Inr ts \<longrightarrow>
        (\<forall>t \<in> set ts.
           (\<exists>probed. first_match env w (audio_candidates (base_name_of (tags t)))
                       = Inr (Some (audio t), probed)) \<and>
           (\<exists>probed. first_match env w (cover_candidates (base_name_of (tags t)))
                       = Inr (cover t, probed)) \<and>
           (path_exists env w (base_name_of (tags t) @ ''.m4a'') = Inr True \<longrightarrow>
              audio t = base_name_of (tags t) @ ''.m4a'' \<and>
              audio t \<noteq> base_name_of (tags t) @ ''.mp3'')))"
proof (intro conjI)
  show "first_match env w (audio_candidates b) =
     (if stat_error env (b @ ''.m4a'') then Inl OSError
      else if on_disk w (b @ ''.m4a'') then Inr (Some (b @ ''.m4a''), [b @ ''.m4a''])
      else if stat_error env (b @ ''.mp4'') then Inl OSError
      else if on_disk w (b @ ''.mp4'') then Inr (Some (b @ ''.mp4''), [b @ ''.m4a'', b @ ''.mp4''])
      else if stat_error env (b @ ''.mp3'') then Inl OSError
      else if on_disk w (b @ ''.mp3'')
        then Inr (Some (b @ ''.mp3''), [b @ ''.m4a'', b @ ''.mp4'', b @ ''.mp3''])
      else if stat_error env (b @ ''.flac'') then Inl OSError
      else if on_disk w (b @ ''.flac'')
        then Inr (Some (b @ ''.flac''), [b @ ''.m4a'', b @ ''.mp4'', b @ ''.mp3'', b @ ''.flac''])
      else Inr (None, [b @ ''.m4a'', b @ ''.mp4'', b @ ''.mp3'', b @ ''.flac'']))"
    by (simp add: audio_candidates_def audio_exts_def path_exists_def)
  show "first_match env w (cover_candidates b) =
     (if stat_error env (b @ ''_cover.jpeg'') then Inl OSError
      else if on_disk w (b @ ''_cover.jpeg'')
        then Inr (Some (b @ ''_cover.jpeg''), [b @ ''_cover.jpeg''])
      else if stat_error env (b @ ''_cover.jpg'') then Inl OSError
      else if on_disk w (b @ ''_cover.jpg'')
        then Inr (Some (b @ ''_cover.jpg''), [b @ ''_cover.jpeg'', b @ ''_cover.jpg''])
      else if stat_error env (b @ ''_cover.png'') then Inl OSError
      else if on_disk w (b @ ''_cover.png'')
        then Inr (Some (b @ ''_cover.png''),
                  [b @ ''_cover.jpeg'', b @ ''_cover.jpg'', b @ ''_cover.png''])
      else if stat_error env (b @ ''_cover.webp'') then Inl OSError
      else if on_disk w (b @ ''_cover.webp'')
        then Inr (Some (b @ ''_cover.webp''),
                  [b @ ''_cover.jpeg'', b @ ''_cover.jpg'', b @ ''_cover.png'', b @ ''_cover.webp''])
      else Inr (None,
                [b @ ''_cover.jpeg'', b @ ''_cover.jpg'', b @ ''_cover.png'', b @ ''_cover.webp'']))"
    by (simp add: cover_candidates_def cover_exts_def path_exists_def)
  show "first_match env w cs =
       (if \<exists>c \<in> set (takeWhile (\<lambda>c. \<not> on_disk w c) cs @
                        take 1 (dropWhile (\<lambda>c. \<not> on_disk w c) cs)). stat_error env c
        then Inl OSError
        else Inr (List.find (on_disk w) cs,
                  takeWhile (\<lambda>c. \<not> on_disk w c) cs @
                  take 1 (dropWhile (\<lambda>c. \<not> on_disk w c) cs)))"
    by (rule first_match_value)
  show m4a: "path_exists env w (b @ ''.m4a'') = Inr True \<longrightarrow>
        first_match env w (audio_candidates b) = Inr (Some (b @ ''.m4a''), [b @ ''.m4a''])" for b
    by (simp add: audio_candidates_def audio_exts_def)
  show "\<forall>ts. find_triplets env w = Inr ts \<longrightarrow>
        (\<forall>t \<in> set ts.
           (\<exists>probed. first_match env w (audio_candidates (base_name_of (tags t)))
                       = Inr (Some (audio t), probed)) \<and>
           (\<exists>probed. first_match env w (cover_candidates (base_name_of (tags t)))
                       = Inr (cover t, probed)) \<and>
           (path_exists env w (base_name_of (tags t) @ ''.m4a'') = Inr True \<longrightarrow>
              audio t = base_name_of (tags t) @ ''.m4a'' \<and>
              audio t \<noteq> base_name_of (tags t) @ ''.mp3''))"
  proof (intro allI impI ballI)
    fix ts t assume ts: "find_triplets env w = Inr ts" and "t \<in> set ts"
    then obtain j where "match_one env w j = Inr (Some t)"
      using find_triplets_member[OF ts, of t] by auto
    from match_one_Some[OF this] m4a[of "base_name_of (tags t)"]
    show "(\<exists>probed. first_match env w (audio_candidates (base_name_of (tags t)))
                       = Inr (Some (audio t), probed)) \<and>
           (\<exists>probed. first_match env w (cover_candidates (base_name_of (tags t)))
                       = Inr (cover t, probed)) \<and>
           (path_exists env w (base_name_of (tags t) @ ''.m4a'') = Inr True \<longrightarrow>
              audio t = base_name_of (tags t) @ ''.m4a'' \<and>
              audio t \<noteq> base_name_of (tags t) @ ''.mp3'')"
      by auto
  qed
qed

text \<open>With \<open>song.m4a\<close> and \<open>song.mp3\<close> both on disk the only unit has \<open>song.m4a\<close> as audio.\<close>

theorem first_match_priority_witness:
  "path_exists demo_env demo_both ''song.m4a'' = Inr True
   \<and> path_exists demo_env demo_both ''song.mp3'' = Inr True
   \<and> first_match demo_env demo_both (audio_candidates ''song'')
       = Inr (Some ''song.m4a'', [''song.m4a''])
   \<and> find_triplets demo_env demo_both
       = Inr [\<lparr>audio = ''song.m4a'', tags = ''song_tags.json'', cover = None\<rparr>]"
proof -
  have e: "path_exists demo_env demo_both ''song.m4a'' = Inr True"
    "path_exists demo_env demo_both ''song.mp3'' = Inr True"
    by (simp_all add: path_exists_def on_disk_def demo_env_def demo_both_def)
  have f: "find_triplets demo_env demo_both
       = Inr [\<lparr>audio = ''song.m4a'', tags = ''song_tags.json'', cover = None\<rparr>]"
    by (simp add: match_defs demo_env_def demo_both_def)
  have "path_exists demo_env demo_both (''song'' @ ''.m4a'') = Inr True \<longrightarrow>
        first_match demo_env demo_both (audio_candidates ''song'')
          = Inr (Some (''song'' @ ''.m4a''), [''song'' @ ''.m4a''])"
    using first_match_priority[of demo_env demo_both "''song''" "[]"] by blast
  then have "first_match demo_env demo_both (audio_candidates ''song'')
       = Inr (Some ''song.m4a'', [''song.m4a''])"
    using e by simp
  then show ?thesis using e f by simp
qed

subsection \<open>C5: base names\<close>

text \<open>
  C5 does not hold of the code. Line 20 removes every occurrence of \<open>_tags\<close> from the stem
  of the sidecar name, not only the final one. In a directory that holds \<open>a_tags.json\<close>,
  \<open>a_tags_tags.json\<close> and \<open>a.mp3\<close> the matcher returns two units with the base name \<open>a\<close>
  and the same audio file, although no audio file exists for the name \<open>a_tags\<close> that
  stripping the suffix of the second sidecar gives.
\<close>

theorem find_triplets_merges_base_names:
  "find_triplets demo_env demo_twice =
     Inr [\<lparr>audio = ''a.mp3'', tags = ''a_tags.json'', cover = None\<rparr>,
          \<lparr>audio = ''a.mp3'', tags = ''a_tags_tags.json'', cover = None\<rparr>]
   \<and> base_name_of ''a_tags.json'' = ''a''
   \<and> base_name_of ''a_tags_tags.json'' = ''a''
   \<and> first_match demo_env demo_twice (audio_candidates ''a_tags'')
       = Inr (None, [''a_tags.m4a'', ''a_tags.mp4'', ''a_tags.mp3'', ''a_tags.flac''])"
  by (simp add: match_defs demo_env_def demo_twice_def)

subsection \<open>The processes a unit starts, and the suffix of the output path\<close>

lemma spawned_append: "spawned (xs @ ys) = spawned xs @ spawned ys"
  by (simp add: spawned_def)

lemma spawned_simps:
  "spawned [] = []"
  "spawned (Spawn cmd # es) = cmd # spawned es"
  "spawned (Unlink p # es) = spawned es"
  "spawned (Save p # es) = spawned es"
  by (simp_all add: spawned_def)

lemma mp3_save_spawned: "spawned (trace (snd (mp3_save env p f t w))) = spawned (trace w)"
  by (simp add: mp3_save_def Let_def log_event_def spawned_append spawned_simps)

lemma apply_tags_spawned: "spawned (trace (snd (apply_tags env p d w))) = spawned (trace w)"
  by (auto simp: apply_tags_def mp3_save_def Let_def log_event_def spawned_append spawned_simps
      split: sum.splits prod.splits option.splits if_splits)

lemma embed_cover_art_spawned:
  "spawned (trace (snd (embed_cover_art env p c w))) = spawned (trace w)"
  by (auto simp: embed_cover_art_def mp3_save_def Let_def log_event_def spawned_append
      spawned_simps split: sum.splits prod.splits option.splits if_splits)

lemma unlink_spawned: "spawned (trace (snd (unlink env p w))) = spawned (trace w)"
  by (simp add: unlink_def Let_def log_event_def spawned_append spawned_simps)

lemma cleanup_spawned: "spawned (trace (snd (cleanup env t m w))) = spawned (trace w)"
  by (cases "cover t") (simp_all add: cleanup_cases Let_def unlink_spawned)

lemma subprocess_run_spawned:
  "spawned (trace (snd (subprocess_run env cmd w))) = spawned (trace w) @ [cmd]"
  by (auto simp: subprocess_run_def Let_def log_event_def spawned_append spawned_simps
      split: list.splits option.splits launch.splits)

lemma convert_spawned:
  "spawned (trace (snd (convert_to_mp3 env a b w))) = spawned (trace w) @ [ffmpeg_cmd a b]"
  using subprocess_run_spawned[of env "ffmpeg_cmd a b" w]
  by (auto simp: convert_to_mp3_def split: prod.splits run_result.splits)

lemma rfind_less: "rfind c s = Some i \<Longrightarrow> i < length s"
  by (induction s arbitrary: i) (auto split: option.splits if_splits)

lemma rfind_dot_mp3: "rfind (CHR ''.'') (s @ ''.mp3'') = Some (length s)"
  by (induction s) simp_all

lemma path_suffix_dot_mp3: "s \<noteq> [] \<Longrightarrow> path_suffix (s @ ''.mp3'') = ''.mp3''"
  by (simp add: path_suffix_def rfind_dot_mp3)

lemma with_suffix_mp3: "a \<noteq> [] \<Longrightarrow> \<exists>s. s \<noteq> [] \<and> with_suffix a ''.mp3'' = s @ ''.mp3''"
  by (auto simp: with_suffix_def path_suffix_def Let_def split: option.splits if_splits
      dest: rfind_less)

lemma rfind_None: "c \<notin> set s \<Longrightarrow> rfind c s = None"
  by (induction s) auto

lemma rfind_dot_ext:
  "CHR ''.'' \<notin> set ext \<Longrightarrow> rfind (CHR ''.'') (s @ CHR ''.'' # ext) = Some (length s)"
  by (induction s) (simp_all add: rfind_None)

lemma path_suffix_ext:
  "s \<noteq> [] \<Longrightarrow> ext \<noteq> [] \<Longrightarrow> CHR ''.'' \<notin> set ext \<Longrightarrow>
     path_suffix (s @ CHR ''.'' # ext) = CHR ''.'' # ext"
  by (simp add: path_suffix_def rfind_dot_ext)

lemma path_suffix_dotfile: "CHR ''.'' \<notin> set ext \<Longrightarrow> path_suffix (CHR ''.'' # ext) = []"
  using rfind_dot_ext[of ext "[]"] by (simp add: path_suffix_def)

lemma with_suffix_ext:
  "s \<noteq> [] \<Longrightarrow> ext \<noteq> [] \<Longrightarrow> CHR ''.'' \<notin> set ext \<Longrightarrow>
     with_suffix (s @ CHR ''.'' # ext) suf = s @ suf"
  by (simp add: with_suffix_def path_suffix_ext)

lemma first_match_in:
  "first_match env w cs = Inr (Some c, probed) \<Longrightarrow>
     c \<in> set cs \<and> on_disk w c \<and> \<not> stat_error env c"
  by (induction cs arbitrary: probed)
     (auto simp: path_exists_def split: prod.splits if_splits sum.splits)

lemma find_triplets_audio:
  assumes "find_triplets env w = Inr ts" and "t \<in> set ts"
  shows "tags t \<in> set (glob_tags w)"
    and "audio t \<in> set (audio_candidates (base_name_of (tags t)))"
    and "on_disk w (audio t)"
proof -
  obtain j where j: "j \<in> set (glob_tags w)" "match_one env w j = Inr (Some t)"
    using find_triplets_member[OF assms(1), of t] assms(2) by auto
  from match_one_Some[OF j(2)] obtain probed where
    t: "tags t = j"
    and a: "first_match env w (audio_candidates (base_name_of j)) = Inr (Some (audio t), probed)"
    by auto
  show "tags t \<in> set (glob_tags w)" using j(1) t by simp
  show "audio t \<in> set (audio_candidates (base_name_of (tags t)))"
    using first_match_in[OF a] t by simp
  show "on_disk w (audio t)" using first_match_in[OF a] by simp
qed

lemma matched_audio_suffix:
  assumes "a \<in> set (audio_candidates b)"
  shows "lower (path_suffix a) = ''.mp3'' \<longleftrightarrow> b \<noteq> [] \<and> a = b @ ''.mp3''"
proof (cases "b = []")
  case True
  then have "path_suffix a = []"
    using assms path_suffix_dotfile[of "''m4a''"] path_suffix_dotfile[of "''mp4''"]
      path_suffix_dotfile[of "''mp3''"] path_suffix_dotfile[of "''flac''"]
    by (auto simp: audio_candidates_def audio_exts_def)
  then show ?thesis using True by (simp add: lower_def)
next
  case False
  have "(a = b @ ''.m4a'' \<and> path_suffix a = ''.m4a'') \<or>
        (a = b @ ''.mp4'' \<and> path_suffix a = ''.mp4'') \<or>
        (a = b @ ''.mp3'' \<and> path_suffix a = ''.mp3'') \<or>
        (a = b @ ''.flac'' \<and> path_suffix a = ''.flac'')"
    using assms False path_suffix_ext[of b "''m4a''"] path_suffix_ext[of b "''mp4''"]
      path_suffix_ext[of b "''mp3''"] path_suffix_ext[of b "''flac''"]
    by (auto simp: audio_candidates_def audio_exts_def)
  then show ?thesis using False by (auto simp: lower_def lower_char_def)
qed

subsection \<open>C6: normalization in place\<close>

text \<open>
  C6, as amended. When the suffix of the audio path, as \<open>PurePath.suffix\<close> reads it and in
  lower case, is \<open>.mp3\<close>, the normalization returns the audio path itself and leaves the
  world as it is: no process is started, in the normalization or anywhere else in the unit,
  and the tags are applied to the audio path. Among the units the matcher returns these are
  the units with a non-empty base name and the audio \<open>base.mp3\<close>. Otherwise the encoder is
  started once, on the audio path and on the path \<open>with_suffix audio ".mp3"\<close>, which differs
  from the audio path and is the only path the normalization can return; that path ends in
  \<open>.mp3\<close> and pathlib reads \<open>.mp3\<close> as its suffix.
\<close>

theorem normalize_in_place_or_sibling:
  "(lower (path_suffix a) = ''.mp3'' \<longrightarrow> normalize env a w = (Inr (Some a), w))
   \<and> (lower (path_suffix a) \<noteq> ''.mp3'' \<longrightarrow>
        fst (normalize env a w) \<in>
          {Inr (Some (with_suffix a ''.mp3'')), Inr None, Inl PermissionError,
           Inl UnicodeDecodeError} \<and>
        spawned (trace (snd (normalize env a w))) =
          spawned (trace w) @ [ffmpeg_cmd a (with_suffix a ''.mp3'')] \<and>
        with_suffix a ''.mp3'' \<noteq> a \<and>
        suffix ''.mp3'' (with_suffix a ''.mp3'') \<and>
        (a \<noteq> [] \<longrightarrow> path_suffix (with_suffix a ''.mp3'') = ''.mp3''))
   \<and> (lower (path_suffix (audio t)) = ''.mp3'' \<longrightarrow>
        spawned (trace (snd (process_triplet env t w))) = spawned (trace w) \<and>
        (\<forall>d. read_tags env (tags t) w = Inr d \<longrightarrow>
           fst (process_triplet env t w) = Inr (fst (apply_tags env (audio t) d w))))
   \<and> (\<forall>ts. find_triplets env w = Inr ts \<longrightarrow>
        (\<forall>u \<in> set ts.
           lower (path_suffix (audio u)) = ''.mp3'' \<longleftrightarrow>
             base_name_of (tags u) \<noteq> [] \<and> audio u = base_name_of (tags u) @ ''.mp3''))"
proof (intro conjI impI allI ballI)
  assume "lower (path_suffix a) = ''.mp3''"
  then show "normalize env a w = (Inr (Some a), w)" by (simp add: normalize_def)
next
  assume "lower (path_suffix a) \<noteq> ''.mp3''"
  then show "fst (normalize env a w) \<in>
          {Inr (Some (with_suffix a ''.mp3'')), Inr None, Inl PermissionError,
           Inl UnicodeDecodeError}"
    by (auto simp: normalize_def Let_def convert_to_mp3_def
        split: prod.splits sum.splits run_result.splits if_splits)
next
  assume "lower (path_suffix a) \<noteq> ''.mp3''"
  then show "spawned (trace (snd (normalize env a w))) =
          spawned (trace w) @ [ffmpeg_cmd a (with_suffix a ''.mp3'')]"
    using convert_spawned[of env a "with_suffix a ''.mp3''" w]
    by (auto simp: normalize_def Let_def split: prod.splits sum.splits)
next
  assume ne: "lower (path_suffix a) \<noteq> ''.mp3''"
  show "with_suffix a ''.mp3'' \<noteq> a"
  proof
    assume "with_suffix a ''.mp3'' = a"
    then have "path_suffix a = ''.mp3''" by (rule with_suffix_fixed) simp
    then show False using ne lower_dot_mp3 by simp
  qed
next
  show "suffix ''.mp3'' (with_suffix a ''.mp3'')"
    by (simp add: with_suffix_def Let_def suffix_def)
next
  assume "a \<noteq> []"
  then show "path_suffix (with_suffix a ''.mp3'') = ''.mp3''"
    using with_suffix_mp3[of a] path_suffix_dot_mp3 by auto
next
  assume mp3: "lower (path_suffix (audio t)) = ''.mp3''"
  then have n: "normalize env (audio t) w = (Inr (Some (audio t)), w)"
    by (simp add: normalize_def)
  show "spawned (trace (snd (process_triplet env t w))) = spawned (trace w)"
    using n
    by (auto simp: process_triplet_def Let_def cleanup_spawned embed_cover_art_spawned
        apply_tags_spawned split: sum.splits prod.splits option.splits)
       (metis apply_tags_spawned snd_conv)+
next
  fix d
  assume mp3: "lower (path_suffix (audio t)) = ''.mp3''"
    and r: "read_tags env (tags t) w = Inr d"
  then have n: "normalize env (audio t) w = (Inr (Some (audio t)), w)"
    by (simp add: normalize_def)
  show "fst (process_triplet env t w) = Inr (fst (apply_tags env (audio t) d w))"
    using n r by (auto simp: process_triplet_def Let_def split: prod.splits)
next
  fix ts u
  assume "find_triplets env w = Inr ts" and "u \<in> set ts"
  then have "audio u \<in> set (audio_candidates (base_name_of (tags u)))"
    by (rule find_triplets_audio(2))
  then show "lower (path_suffix (audio u)) = ''.mp3'' \<longleftrightarrow>
             base_name_of (tags u) \<noteq> [] \<and> audio u = base_name_of (tags u) @ ''.mp3''"
    by (rule matched_audio_suffix)
qed

text \<open>
  \<open>song.mp3\<close> is normalized in place and its unit starts no process; \<open>song.flac\<close> is sent to
  the encoder with the output path \<open>song.mp3\<close>.
\<close>

theorem normalize_in_place_or_sibling_witness:
  "lower (path_suffix ''song.mp3'') = ''.mp3''
   \<and> normalize demo_env ''song.mp3'' demo_inplace = (Inr (Some ''song.mp3''), demo_inplace)
   \<and> lower (path_suffix ''song.flac'') \<noteq> ''.mp3''
   \<and> fst (normalize demo_env ''song.flac'' demo_flac) = Inr (Some ''song.mp3'')
   \<and> spawned (trace (snd (normalize demo_env ''song.flac'' demo_flac)))
       = [[''ffmpeg'', ''-i'', ''song.flac'', ''-codec:a'', ''libmp3lame'', ''-q:a'', ''0'', ''-y'',
           ''song.mp3'']]
   \<and> find_triplets demo_env demo_inplace
       = Inr [\<lparr>audio = ''song.mp3'', tags = ''song_tags.json'', cover = None\<rparr>]
   \<and> base_name_of ''song_tags.json'' \<noteq> []
   \<and> ''song.mp3'' = base_name_of ''song_tags.json'' @ ''.mp3''
   \<and> spawned (trace (snd (process_triplet demo_env demo_unit demo_inplace))) = []"
proof -
  have s1: "lower (path_suffix ''song.mp3'') = ''.mp3''"
    by (simp add: path_suffix_def lower_def lower_char_def)
  have s2: "lower (path_suffix ''song.flac'') \<noteq> ''.mp3''"
    by (simp add: path_suffix_def lower_def lower_char_def)
  have s3: "lower (path_suffix (audio demo_unit)) = ''.mp3''"
    by (simp add: demo_unit_def path_suffix_def lower_def lower_char_def)
  have f: "find_triplets demo_env demo_inplace
       = Inr [\<lparr>audio = ''song.mp3'', tags = ''song_tags.json'', cover = None\<rparr>]"
    by (simp add: match_defs demo_env_def demo_inplace_def)
  have n: "fst (normalize demo_env ''song.flac'' demo_flac) = Inr (Some ''song.mp3'')"
    by (simp add: model_defs Let_def demo_env_def demo_flac_def)
  have w: "with_suffix ''song.flac'' ''.mp3'' = ''song.mp3''"
    by (simp add: with_suffix_def path_suffix_def)
  have t0: "spawned (trace demo_inplace) = []" "spawned (trace demo_flac) = []"
    by (simp_all add: spawned_def demo_inplace_def demo_flac_def)
  note inplace = normalize_in_place_or_sibling[of "''song.mp3''" demo_env demo_inplace demo_unit]
  note sibling = normalize_in_place_or_sibling[of "''song.flac''" demo_env demo_flac demo_unit]
  have a: "normalize demo_env ''song.mp3'' demo_inplace = (Inr (Some ''song.mp3''), demo_inplace)"
    using inplace s1 by blast
  have b: "spawned (trace (snd (process_triplet demo_env demo_unit demo_inplace)))
             = spawned (trace demo_inplace)"
    using inplace s3 by blast
  have c: "spawned (trace (snd (normalize demo_env ''song.flac'' demo_flac))) =
          spawned (trace demo_flac) @ [ffmpeg_cmd ''song.flac'' (with_suffix ''song.flac'' ''.mp3'')]"
    using sibling s2 by blast
  have "\<forall>u \<in> set [\<lparr>audio = ''song.mp3'', tags = ''song_tags.json'', cover = None\<rparr>].
           lower (path_suffix (audio u)) = ''.mp3'' \<longleftrightarrow>
             base_name_of (tags u) \<noteq> [] \<and> audio u = base_name_of (tags u) @ ''.mp3''"
    using inplace f by blast
  then have u: "base_name_of ''song_tags.json'' \<noteq> [] \<and>
                ''song.mp3'' = base_name_of ''song_tags.json'' @ ''.mp3''"
    using s1 by simp
  have u1: "base_name_of ''song_tags.json'' \<noteq> []"
    and u2: "''song.mp3'' = base_name_of ''song_tags.json'' @ ''.mp3''"
    using u by blast+
  have rest: "lower (path_suffix ''song.mp3'') = ''.mp3''
     \<and> normalize demo_env ''song.mp3'' demo_inplace = (Inr (Some ''song.mp3''), demo_inplace)
     \<and> lower (path_suffix ''song.flac'') \<noteq> ''.mp3''
     \<and> fst (normalize demo_env ''song.flac'' demo_flac) = Inr (Some ''song.mp3'')
     \<and> spawned (trace (snd (normalize demo_env ''song.flac'' demo_flac)))
         = [[''ffmpeg'', ''-i'', ''song.flac'', ''-codec:a'', ''libmp3lame'', ''-q:a'', ''0'', ''-y'',
             ''song.mp3'']]
     \<and> spawned (trace (snd (process_triplet demo_env demo_unit demo_inplace))) = []"
    using s1 s2 a b c n w t0 by (simp add: ffmpeg_cmd_def)
  show ?thesis using rest f u1 u2 by blast
qed

text \<open>
  The claim without the amendment fails for the sidecar \<open>_tags.json\<close> beside the file
  \<open>.mp3\<close>: the matcher returns the unit with that audio, found under the extension
  \<open>.mp3\<close>, but pathlib reads \<open>.mp3\<close> as a name without suffix. The encoder is started on it
  with the output \<open>.mp3.mp3\<close>, the tags go to that file, and the unit does not work in
  place: the file \<open>.mp3\<close> is deleted.
\<close>

theorem normalize_in_place_or_sibling_counterexample:
  "find_triplets demo_env demo_dot_mp3
     = Inr [\<lparr>audio = ''.mp3'', tags = ''_tags.json'', cover = Some ''_cover.png''\<rparr>]
   \<and> base_name_of ''_tags.json'' = []
   \<and> ''.mp3'' \<in> set (audio_candidates (base_name_of ''_tags.json''))
   \<and> path_suffix ''.mp3'' = []
   \<and> fst (normalize demo_env ''.mp3'' demo_dot_mp3) = Inr (Some ''.mp3.mp3'')
   \<and> spawned (trace (snd (normalize demo_env ''.mp3'' demo_dot_mp3)))
       = [[''ffmpeg'', ''-i'', ''.mp3'', ''-codec:a'', ''libmp3lame'', ''-q:a'', ''0'', ''-y'',
           ''.mp3.mp3'']]
   \<and> fst (process_triplet demo_env
            \<lparr>audio = ''.mp3'', tags = ''_tags.json'', cover = Some ''_cover.png''\<rparr>
            demo_dot_mp3) = Inr True
   \<and> map fst (files (snd (process_triplet demo_env
            \<lparr>audio = ''.mp3'', tags = ''_tags.json'', cover = Some ''_cover.png''\<rparr>
            demo_dot_mp3))) = [''.mp3.mp3'']"
proof -
  have m: "find_triplets demo_env demo_dot_mp3
     = Inr [\<lparr>audio = ''.mp3'', tags = ''_tags.json'', cover = Some ''_cover.png''\<rparr>]"
    "base_name_of ''_tags.json'' = []"
    "''.mp3'' \<in> set (audio_candidates (base_name_of ''_tags.json''))"
    "path_suffix ''.mp3'' = []"
    by (simp_all add: match_defs path_suffix_def demo_env_def demo_dot_mp3_def)
  have n: "fst (normalize demo_env ''.mp3'' demo_dot_mp3) = Inr (Some ''.mp3.mp3'')"
    "spawned (trace (snd (normalize demo_env ''.mp3'' demo_dot_mp3)))
       = [[''ffmpeg'', ''-i'', ''.mp3'', ''-codec:a'', ''libmp3lame'', ''-q:a'', ''0'', ''-y'',
           ''.mp3.mp3'']]"
    by (simp_all add: model_defs Let_def spawned_def demo_env_def demo_dot_mp3_def)
  have p: "fst (process_triplet demo_env
            \<lparr>audio = ''.mp3'', tags = ''_tags.json'', cover = Some ''_cover.png''\<rparr>
            demo_dot_mp3) = Inr True"
    "map fst (files (snd (process_triplet demo_env
            \<lparr>audio = ''.mp3'', tags = ''_tags.json'', cover = Some ''_cover.png''\<rparr>
            demo_dot_mp3))) = [''.mp3.mp3'']"
    by (simp_all add: model_defs Let_def demo_env_def demo_dot_mp3_def)
  show ?thesis using m n p by (intro conjI)
qed

subsection \<open>Exceptions that leave the matcher and the loop over the units\<close>












subsection \<open>C8: the exit status\<close>




subsection \<open>The frames a record adds\<close>




















subsection \<open>C7: applying a record twice\<close>



subsection \<open>Conversion, tagging and cover embedding on the output path\<close>

lemma glob_tags_suffix: "j \<in> set (glob_tags w) \<Longrightarrow> suffix ''_tags.json'' j"
  by (simp add: glob_tags_def)

lemma match_all_returns:
  "match_all env w js = Inr ts \<Longrightarrow> j \<in> set js \<Longrightarrow> \<exists>r. match_one env w j = Inr r"
  by (induction js arbitrary: ts) (auto split: sum.splits)

lemma normalize_Some:
  assumes "lower (path_suffix a) \<noteq> ''.mp3''" and "normalize env a w = (Inr (Some m), w1)"
  shows "m = with_suffix a ''.mp3'' \<and>
         (\<exists>f g. map_of (files w) a = Some f \<and> transcode env f = Some g \<and>
                files w1 = AList.update m g (files w))"
  using assms
  by (auto simp: normalize_def Let_def convert_to_mp3_def subprocess_run_def ffmpeg_cmd_def
      log_event_def split: prod.splits if_splits run_result.splits option.splits sum.splits
      launch.splits)

lemma apply_tags_ok_effect:
  "apply_tags env p d w = (True, w') \<Longrightarrow>
     \<exists>f t. map_of (files w) p = Some f \<and> files w' = AList.update p (f\<lparr>id3 := Some t\<rparr>) (files w)"
  by (auto simp: apply_tags_def mp3_save_def Let_def log_event_def mp3_load_def open_read_def
      split: sum.splits prod.splits option.splits if_splits)

lemma embed_cover_art_effect:
  "map_of (files w) m = Some h \<Longrightarrow>
     \<exists>tg. map_of (files (snd (embed_cover_art env m c w))) m = Some (h\<lparr>id3 := tg\<rparr>)"
proof -
  assume h: "map_of (files w) m = Some h"
  have same: "h = h\<lparr>id3 := id3 h\<rparr>" by simp
  show ?thesis
  proof (cases "files (snd (embed_cover_art env m c w)) = files w")
    case True
    then show ?thesis using h same by metis
  next
    case False
    then obtain f t where "map_of (files w) m = Some f"
      and "files (snd (embed_cover_art env m c w)) = AList.update m (f\<lparr>id3 := Some t\<rparr>) (files w)"
      by (auto simp: embed_cover_art_def mp3_save_def Let_def log_event_def mp3_load_def
          open_read_def split: sum.splits prod.splits option.splits if_splits)
    then show ?thesis using h by (auto simp: update_conv')
  qed
qed


lemma m4a_or_mp4_path:
  assumes "b \<noteq> []" and "a = b @ ''.m4a'' \<or> a = b @ ''.mp4''"
  shows "lower (path_suffix a) \<noteq> ''.mp3''" and "with_suffix a ''.mp3'' = b @ ''.mp3''"
    and "a \<noteq> b @ ''.mp3''"
proof -
  have s: "path_suffix a = ''.m4a'' \<or> path_suffix a = ''.mp4''"
    using assms path_suffix_ext[of b "''m4a''"] path_suffix_ext[of b "''mp4''"] by auto
  then show "lower (path_suffix a) \<noteq> ''.mp3''"
    by (auto simp: lower_def lower_char_def)
  show "with_suffix a ''.mp3'' = b @ ''.mp3''"
    using assms with_suffix_ext[of b "''m4a''" "''.mp3''"] with_suffix_ext[of b "''mp4''" "''.mp3''"]
    by auto
  show "a \<noteq> b @ ''.mp3''" using assms by auto
qed

subsection \<open>C10: an MP3 that is already there\<close>

text \<open>
  C10, as amended. Let a sidecar of the directory have the non-empty base name \<open>b\<close>, let
  \<open>b.mp3\<close> exist, and let \<open>a\<close> be \<open>b.m4a\<close> if that exists and \<open>b.mp4\<close> otherwise, \<open>a\<close>
  existing, and let the matcher return its list of units (no \<open>exists()\<close> call raises). Then
  the list has a unit for the sidecar with the audio \<open>a\<close>, not \<open>b.mp3\<close>. The normalization starts the encoder once, with the input \<open>a\<close>, the flag \<open>-y\<close>
  and the output \<open>b.mp3\<close>. When the normalization succeeds, \<open>b.mp3\<close> holds what the encoder
  made of \<open>a\<close>. After a run in which the sidecar is read, the conversion and the tagging
  succeed and the cleanup catches no exception, the unit is successful, \<open>a\<close> is gone, and
  \<open>b.mp3\<close> holds the encoder's output with the tags written: the content it had before is
  lost.
\<close>

theorem existing_mp3_is_overwritten:
  assumes "json_file \<in> set (glob_tags w)"
      and "b = base_name_of json_file"
      and "b \<noteq> []"
      and "on_disk w (b @ ''.mp3'')"
      and "a = (if on_disk w (b @ ''.m4a'') then b @ ''.m4a'' else b @ ''.mp4'')"
      and "on_disk w a"
      and "find_triplets env w = Inr ts"
  shows "\<exists>t \<in> set ts.
           match_one env w json_file = Inr (Some t) \<and> tags t = json_file \<and> audio t = a \<and>
           a \<noteq> b @ ''.mp3'' \<and>
           spawned (trace (snd (normalize env a w))) =
             spawned (trace w) @
             [[''ffmpeg'', ''-i'', a, ''-codec:a'', ''libmp3lame'', ''-q:a'', ''0'', ''-y'',
               b @ ''.mp3'']] \<and>
           (\<forall>m w1. normalize env a w = (Inr (Some m), w1) \<longrightarrow>
              m = b @ ''.mp3'' \<and>
              (\<exists>f g. map_of (files w) a = Some f \<and> transcode env f = Some g \<and>
                     map_of (files w1) (b @ ''.mp3'') = Some g)) \<and>
           (\<forall>d m w1 w2 w3 w4.
              read_tags env json_file w = Inr d \<and>
              normalize env a w = (Inr (Some m), w1) \<and>
              apply_tags env m d w1 = (True, w2) \<and>
              w3 = (case cover t of None \<Rightarrow> w2
                    | Some c \<Rightarrow> snd (embed_cover_art env m c w2)) \<and>
              fst (cleanup env t m w3) = None \<and>
              w4 = snd (process_triplet env t w) \<longrightarrow>
              fst (process_triplet env t w) = Inr True \<and> \<not> on_disk w4 a \<and>
              (\<exists>f g tg. map_of (files w) a = Some f \<and> transcode env f = Some g \<and>
                        map_of (files w4) (b @ ''.mp3'') = Some (g\<lparr>id3 := tg\<rparr>)))"
proof -
  have a_cases: "a = b @ ''.m4a'' \<or> a = b @ ''.mp4''" using assms(5) by auto
  note a_facts = m4a_or_mp4_path[OF assms(3) a_cases]
  obtain r where r: "match_one env w json_file = Inr r"
    using match_all_returns[of env w "glob_tags w" ts json_file] assms(1,7)
    by (auto simp: find_triplets_def)
  then have no_raise: "first_match env w (audio_candidates b) \<noteq> Inl e" for e
    using assms(2) by (auto simp: match_one_def Let_def)
  have found: "\<exists>probed. first_match env w (audio_candidates b) = Inr (Some a, probed)"
  proof (cases "on_disk w (b @ ''.m4a'')")
    case True
    then show ?thesis
      using assms(5) no_raise[of OSError]
      by (auto simp: audio_candidates_def audio_exts_def path_exists_def split: if_splits)
  next
    case False
    then have "a = b @ ''.mp4''" using assms(5) by simp
    then show ?thesis
      using False assms(6) no_raise[of OSError]
      by (auto simp: audio_candidates_def audio_exts_def path_exists_def split: if_splits)
  qed
  then obtain probed where found': "first_match env w (audio_candidates b) = Inr (Some a, probed)"
    by blast
  obtain c probed' where cov: "first_match env w (cover_candidates b) = Inr (c, probed')"
    and r': "r = Some \<lparr>audio = a, tags = json_file, cover = c\<rparr>"
    using r found' assms(2)
    by (auto simp: match_one_def Let_def split: sum.splits prod.splits)
  define t where "t = \<lparr>audio = a, tags = json_file, cover = c\<rparr>"
  have match: "match_one env w json_file = Inr (Some t)"
    using r r' by (simp add: t_def)
  have member: "t \<in> set ts"
    using match assms(1) find_triplets_member[OF assms(7), of t] by auto
  have t_simps: "tags t = json_file" "audio t = a" "cover t = c"
    by (simp_all add: t_def)
  have sidecar: "json_file \<noteq> b @ ''.mp3''"
  proof
    assume e: "json_file = b @ ''.mp3''"
    obtain zs where "json_file = zs @ ''_tags.json''"
      using glob_tags_suffix[OF assms(1)] by (auto simp: suffix_def)
    then have "last json_file = CHR ''n''" by simp
    moreover have "last json_file = CHR ''3''" using e by simp
    ultimately show False by simp
  qed
  have cover_ne: "cover t \<noteq> Some (b @ ''.mp3'')"
  proof
    assume "cover t = Some (b @ ''.mp3'')"
    then have "b @ ''.mp3'' \<in> set (cover_candidates b)"
      using first_match_in[of env w "cover_candidates b" "b @ ''.mp3''" probed'] cov t_simps
      by simp
    then show False by (auto simp: cover_candidates_def cover_exts_def)
  qed
  have spawn: "spawned (trace (snd (normalize env a w))) =
             spawned (trace w) @
             [[''ffmpeg'', ''-i'', a, ''-codec:a'', ''libmp3lame'', ''-q:a'', ''0'', ''-y'',
               b @ ''.mp3'']]"
    using a_facts(1,2) convert_spawned[of env a "b @ ''.mp3''" w]
    by (auto simp: normalize_def Let_def ffmpeg_cmd_def split: prod.splits sum.splits)
  have conv: "m = b @ ''.mp3'' \<and>
              (\<exists>f g. map_of (files w) a = Some f \<and> transcode env f = Some g \<and>
                     files w1 = AList.update (b @ ''.mp3'') g (files w))"
    if "normalize env a w = (Inr (Some m), w1)" for m w1
    using normalize_Some[OF a_facts(1) that] a_facts(2) by auto
  have conv': "\<forall>m w1. normalize env a w = (Inr (Some m), w1) \<longrightarrow>
              m = b @ ''.mp3'' \<and>
              (\<exists>f g. map_of (files w) a = Some f \<and> transcode env f = Some g \<and>
                     map_of (files w1) (b @ ''.mp3'') = Some g)"
    using conv by (fastforce simp: update_conv')
  have run: "fst (process_triplet env t w) = Inr True \<and> \<not> on_disk w4 a \<and>
              (\<exists>f g tg. map_of (files w) a = Some f \<and> transcode env f = Some g \<and>
                        map_of (files w4) (b @ ''.mp3'') = Some (g\<lparr>id3 := tg\<rparr>))"
    if h: "read_tags env json_file w = Inr d"
      "normalize env a w = (Inr (Some m), w1)"
      "apply_tags env m d w1 = (True, w2)"
      "w3 = (case cover t of None \<Rightarrow> w2 | Some c \<Rightarrow> snd (embed_cover_art env m c w2))"
      "fst (cleanup env t m w3) = None"
      "w4 = snd (process_triplet env t w)"
    for d m w1 w2 w3 w4
  proof -
    from conv[OF h(2)] obtain f g where m: "m = b @ ''.mp3''"
      and f: "map_of (files w) a = Some f" and g: "transcode env f = Some g"
      and w1: "files w1 = AList.update m g (files w)" by auto
    from apply_tags_ok_effect[OF h(3)] obtain f1 tg1
      where "map_of (files w1) m = Some f1"
        and w2: "files w2 = AList.update m (f1\<lparr>id3 := Some tg1\<rparr>) (files w1)" by auto
    then have "f1 = g" using w1 by (simp add: update_conv')
    then have m2: "map_of (files w2) m = Some (g\<lparr>id3 := Some tg1\<rparr>)"
      using w2 by (simp add: update_conv')
    have "\<exists>tg. map_of (files w3) m = Some (g\<lparr>id3 := tg\<rparr>)"
    proof (cases "cover t")
      case None
      then show ?thesis using h(4) m2 by auto
    next
      case (Some c)
      then show ?thesis
        using h(4) embed_cover_art_effect[OF m2, of env c] by auto
    qed
    then obtain tg where m3: "map_of (files w3) m = Some (g\<lparr>id3 := tg\<rparr>)" by blast
    have p: "process_triplet env t w = (Inr True, snd (cleanup env t m w3))"
      using process_triplet_tagged(1)[of env t w d m w1 w2 w3] h(1-4) t_simps by simp
    then have w4: "w4 = snd (cleanup env t m w3)" using h(6) by simp
    note files = cleanup_ok_effect(1)[OF h(5) w4]
    have gone: "\<not> on_disk w4 a"
      using files t_simps a_facts(3) m by (simp add: on_disk_def)
    have kept: "map_of (files w4) (b @ ''.mp3'') = Some (g\<lparr>id3 := tg\<rparr>)"
      using files t_simps a_facts(3) m m3 sidecar cover_ne by auto
    show ?thesis using p f g gone kept by auto
  qed
  show ?thesis
  proof (rule bexI[OF _ member], intro conjI)
    show "match_one env w json_file = Inr (Some t)" by (rule match)
    show "tags t = json_file" "audio t = a" by (simp_all add: t_simps)
    show "a \<noteq> b @ ''.mp3''" by (rule a_facts(3))
    show "spawned (trace (snd (normalize env a w))) =
             spawned (trace w) @
             [[''ffmpeg'', ''-i'', a, ''-codec:a'', ''libmp3lame'', ''-q:a'', ''0'', ''-y'',
               b @ ''.mp3'']]" by (rule spawn)
    show "\<forall>m w1. normalize env a w = (Inr (Some m), w1) \<longrightarrow>
              m = b @ ''.mp3'' \<and>
              (\<exists>f g. map_of (files w) a = Some f \<and> transcode env f = Some g \<and>
                     map_of (files w1) (b @ ''.mp3'') = Some g)" by (rule conv')
    show "\<forall>d m w1 w2 w3 w4.
              read_tags env json_file w = Inr d \<and>
              normalize env a w = (Inr (Some m), w1) \<and>
              apply_tags env m d w1 = (True, w2) \<and>
              w3 = (case cover t of None \<Rightarrow> w2
                    | Some c \<Rightarrow> snd (embed_cover_art env m c w2)) \<and>
              fst (cleanup env t m w3) = None \<and>
              w4 = snd (process_triplet env t w) \<longrightarrow>
              fst (process_triplet env t w) = Inr True \<and> \<not> on_disk w4 a \<and>
              (\<exists>f g tg. map_of (files w) a = Some f \<and> transcode env f = Some g \<and>
                        map_of (files w4) (b @ ''.mp3'') = Some (g\<lparr>id3 := tg\<rparr>))"
      using run by blast
  qed
qed

text \<open>
  \<open>song.m4a\<close> beside an older \<open>song.mp3\<close>: the unit takes \<open>song.m4a\<close>, and after the run
  \<open>song.mp3\<close> holds the converted audio and \<open>song.m4a\<close> is gone.
\<close>

theorem existing_mp3_is_overwritten_witness:
  "''song_tags.json'' \<in> set (glob_tags demo_both)
   \<and> base_name_of ''song_tags.json'' = ''song''
   \<and> on_disk demo_both ''song.mp3'' \<and> on_disk demo_both ''song.m4a''
   \<and> map_of (files demo_both) ''song.mp3'' = Some \<lparr>payload = ''old'', id3 = None\<rparr>
   \<and> find_triplets demo_env demo_both
       = Inr [\<lparr>audio = ''song.m4a'', tags = ''song_tags.json'', cover = None\<rparr>]
   \<and> (\<exists>t \<in> set [\<lparr>audio = ''song.m4a'', tags = ''song_tags.json'', cover = None\<rparr>].
         tags t = ''song_tags.json'' \<and> audio t = ''song.m4a'')
   \<and> fst (process_triplet demo_env
            \<lparr>audio = ''song.m4a'', tags = ''song_tags.json'', cover = None\<rparr> demo_both) = Inr True
   \<and> files (snd (process_triplet demo_env
            \<lparr>audio = ''song.m4a'', tags = ''song_tags.json'', cover = None\<rparr> demo_both))
       = [(''song.mp3'',
           \<lparr>payload = ''mp3:m4a'',
            id3 = Some [(''TIT2'', TIT2 3 [JStr ''A'']), (''TPE1'', TPE1 3 [JStr ''B''])]\<rparr>)]"
proof -
  have h1: "''song_tags.json'' \<in> set (glob_tags demo_both)"
    by (simp add: glob_tags_def suffix_to_prefix demo_both_def)
  have h2: "''song'' = base_name_of ''song_tags.json''"
    by (simp add: base_name_of_def path_stem_def)
  have h3: "''song'' \<noteq> []" by simp
  have h4: "on_disk demo_both (''song'' @ ''.mp3'')"
    by (simp add: on_disk_def demo_both_def)
  have h6: "on_disk demo_both ''song.m4a''"
    by (simp add: on_disk_def demo_both_def)
  have h5: "''song.m4a'' =
      (if on_disk demo_both (''song'' @ ''.m4a'') then ''song'' @ ''.m4a'' else ''song'' @ ''.mp4'')"
    using h6 by simp
  have h7: "find_triplets demo_env demo_both
       = Inr [\<lparr>audio = ''song.m4a'', tags = ''song_tags.json'', cover = None\<rparr>]"
    by (simp add: match_defs demo_env_def demo_both_def)
  have ex: "\<exists>t \<in> set [\<lparr>audio = ''song.m4a'', tags = ''song_tags.json'', cover = None\<rparr>].
              tags t = ''song_tags.json'' \<and> audio t = ''song.m4a''"
    using existing_mp3_is_overwritten[OF h1 h2 h3 h4 h5 h6 h7] by blast
  have old: "map_of (files demo_both) ''song.mp3'' = Some \<lparr>payload = ''old'', id3 = None\<rparr>"
    by (simp add: demo_both_def)
  have run: "fst (process_triplet demo_env
            \<lparr>audio = ''song.m4a'', tags = ''song_tags.json'', cover = None\<rparr> demo_both) = Inr True"
    "files (snd (process_triplet demo_env
            \<lparr>audio = ''song.m4a'', tags = ''song_tags.json'', cover = None\<rparr> demo_both))
       = [(''song.mp3'',
           \<lparr>payload = ''mp3:m4a'',
            id3 = Some [(''TIT2'', TIT2 3 [JStr ''A'']), (''TPE1'', TPE1 3 [JStr ''B''])]\<rparr>)]"
    by (simp_all add: model_defs Let_def demo_env_def demo_both_def)
  have h4': "on_disk demo_both ''song.mp3''" using h4 by simp
  show ?thesis using h1 h2[symmetric] h4' h6 old h7 ex run by (intro conjI)
qed

text \<open>
  The claim without the amendment fails for the empty base name. The sidecar \<open>_tags.json\<close>
  has the base name \<open>""\<close>, and \<open>.m4a\<close> and \<open>.mp3\<close> exist. pathlib reads \<open>.m4a\<close> as a name
  without a suffix, so the output path is \<open>.m4a.mp3\<close>, not \<open>.mp3\<close>: after the successful
  run \<open>.mp3\<close> still has its old content.
\<close>

theorem existing_mp3_is_overwritten_counterexample:
  "''_tags.json'' \<in> set (glob_tags demo_nameless)
   \<and> base_name_of ''_tags.json'' = []
   \<and> on_disk demo_nameless ([] @ ''.m4a'') \<and> on_disk demo_nameless ([] @ ''.mp3'')
   \<and> find_triplets demo_env demo_nameless
       = Inr [\<lparr>audio = ''.m4a'', tags = ''_tags.json'', cover = None\<rparr>]
   \<and> fst (normalize demo_env ''.m4a'' demo_nameless) = Inr (Some ''.m4a.mp3'')
   \<and> spawned (trace (snd (normalize demo_env ''.m4a'' demo_nameless)))
       = [[''ffmpeg'', ''-i'', ''.m4a'', ''-codec:a'', ''libmp3lame'', ''-q:a'', ''0'', ''-y'',
           ''.m4a.mp3'']]
   \<and> fst (process_triplet demo_env
            \<lparr>audio = ''.m4a'', tags = ''_tags.json'', cover = None\<rparr> demo_nameless) = Inr True
   \<and> files (snd (process_triplet demo_env
            \<lparr>audio = ''.m4a'', tags = ''_tags.json'', cover = None\<rparr> demo_nameless))
       = [(''.mp3'', \<lparr>payload = ''old'', id3 = None\<rparr>),
          (''.m4a.mp3'',
           \<lparr>payload = ''mp3:m4a'',
            id3 = Some [(''TIT2'', TIT2 3 [JStr ''A'']), (''TPE1'', TPE1 3 [JStr ''B''])]\<rparr>)]"
  by (simp add: model_defs match_defs Let_def spawned_def demo_env_def demo_nameless_def)

end
